theory Spec2Isabelle
  imports Complex_Main "HOL-Library.AList"
begin

section \<open>Python values\<close>

text \<open>
  The three stores of \<^verbatim>\<open>app.py\<close> hold what Flask's \<^verbatim>\<open>request.json\<close> delivers and what
  the handlers build from it: \<^verbatim>\<open>None\<close>, booleans, integers, strings, lists and dictionaries.
  A dictionary is an association list in insertion order with one entry per key:
  \<^const>\<open>AList.update\<close> overwrites a key in place or appends a new key at the end, as the
  assignment \<^verbatim>\<open>d[k] = v\<close> does, and \<^const>\<open>AList.delete\<close> is \<^verbatim>\<open>del d[k]\<close>.
  A character of a \<^typ>\<open>string\<close> stands for one character of a Python \<^verbatim>\<open>str\<close>.
  JSON numbers with a fractional part are outside this model: the numbers a request carries
  are Python \<^verbatim>\<open>int\<close>s.
\<close>

datatype json =
    JNull
  | JBool bool
  | JInt int
  | JStr string
  | JList "json list"
  | JDict "(string \<times> json) list"

datatype error =
  TypeError | AttributeError | KeyError | ValueError | ZeroDivisionError | OverflowError

text \<open>\<^verbatim>\<open>str(e)\<close>: the message of an exception is not modelled, its class name stands for it.\<close>

fun str_exc :: "error \<Rightarrow> string" where
  "str_exc TypeError = ''TypeError''"
| "str_exc AttributeError = ''AttributeError''"
| "str_exc KeyError = ''KeyError''"
| "str_exc ValueError = ''ValueError''"
| "str_exc ZeroDivisionError = ''ZeroDivisionError''"
| "str_exc OverflowError = ''OverflowError''"

text \<open>Sequencing of statements that may raise: the first exception ends the sequence.\<close>

definition ebind :: "error + 'a \<Rightarrow> ('a \<Rightarrow> error + 'b) \<Rightarrow> error + 'b" where
  "ebind m f = (case m of Inl e \<Rightarrow> Inl e | Inr x \<Rightarrow> f x)"

text \<open>Truth value of a Python object, as \<^verbatim>\<open>or\<close> and \<^verbatim>\<open>if\<close> test it.\<close>

fun truthy :: "json \<Rightarrow> bool" where
  "truthy JNull = False"
| "truthy (JBool b) = b"
| "truthy (JInt n) = (n \<noteq> 0)"
| "truthy (JStr s) = (s \<noteq> [])"
| "truthy (JList xs) = (xs \<noteq> [])"
| "truthy (JDict d) = (d \<noteq> [])"

text \<open>\<^verbatim>\<open>x or y\<close>\<close>

definition py_or :: "json \<Rightarrow> json \<Rightarrow> json" where
  "py_or x y = (if truthy x then x else y)"

text \<open>\<^verbatim>\<open>x.get(key, default)\<close>: only a dictionary has the method.\<close>

fun py_get :: "json \<Rightarrow> string \<Rightarrow> json \<Rightarrow> error + json" where
  "py_get (JDict d) k dflt = Inr (case map_of d k of Some v \<Rightarrow> v | None \<Rightarrow> dflt)"
| "py_get _ k dflt = Inl AttributeError"

text \<open>\<^verbatim>\<open>x[key]\<close> for a string key.\<close>

fun py_getitem :: "json \<Rightarrow> string \<Rightarrow> error + json" where
  "py_getitem (JDict d) k = (case map_of d k of Some v \<Rightarrow> Inr v | None \<Rightarrow> Inl KeyError)"
| "py_getitem _ k = Inl TypeError"

text \<open>\<^verbatim>\<open>x[key] = v\<close> for a string key.\<close>

fun py_setitem :: "json \<Rightarrow> string \<Rightarrow> json \<Rightarrow> error + json" where
  "py_setitem (JDict d) k v = Inr (JDict (AList.update k v d))"
| "py_setitem _ k v = Inl TypeError"

text \<open>\<^verbatim>\<open>x[:100]\<close>: strings and lists are sliced, nothing else can be.\<close>

fun py_slice100 :: "json \<Rightarrow> error + json" where
  "py_slice100 (JStr s) = Inr (JStr (take 100 s))"
| "py_slice100 (JList xs) = Inr (JList (take 100 xs))"
| "py_slice100 _ = Inl TypeError"

text \<open>\<^verbatim>\<open>n + x\<close> for an integer \<open>n\<close>: \<^verbatim>\<open>bool\<close> is a subclass of \<^verbatim>\<open>int\<close>.\<close>

fun py_add :: "int \<Rightarrow> json \<Rightarrow> error + int" where
  "py_add n (JInt m) = Inr (n + m)"
| "py_add n (JBool b) = Inr (n + (if b then 1 else 0))"
| "py_add n _ = Inl TypeError"

text \<open>\<^verbatim>\<open>sum(xs)\<close>, started at \<open>0\<close> and adding from the left.\<close>

fun py_sum_from :: "int \<Rightarrow> json list \<Rightarrow> error + int" where
  "py_sum_from n [] = Inr n"
| "py_sum_from n (x # xs) = ebind (py_add n x) (\<lambda>n'. py_sum_from n' xs)"

definition py_sum :: "json list \<Rightarrow> error + int" where
  "py_sum xs = py_sum_from 0 xs"

section \<open>Decimal digits\<close>

definition digit_char :: "nat \<Rightarrow> char" where
  "digit_char n = char_of (48 + n)"

definition is_digit :: "char \<Rightarrow> bool" where
  "is_digit c = (48 \<le> (of_char c :: nat) \<and> (of_char c :: nat) \<le> 57)"

definition digit_val :: "char \<Rightarrow> nat" where
  "digit_val c = of_char c - 48"

text \<open>\<^verbatim>\<open>"%0wd" % n\<close> for \<open>n < 10 ^ w\<close>.\<close>

fun zpad :: "nat \<Rightarrow> nat \<Rightarrow> string" where
  "zpad 0 n = []"
| "zpad (Suc w) n = zpad w (n div 10) @ [digit_char (n mod 10)]"

definition parse_digits :: "string \<Rightarrow> nat option" where
  "parse_digits s =
     (if list_all is_digit s then Some (foldl (\<lambda>a c. 10 * a + digit_val c) 0 s) else None)"

text \<open>\<^verbatim>\<open>str(n)\<close>\<close>

fun show_nat :: "nat \<Rightarrow> string" where
  "show_nat n = (if n < 10 then [digit_char n] else show_nat (n div 10) @ [digit_char (n mod 10)])"

declare show_nat.simps [simp del]

definition show_int :: "int \<Rightarrow> string" where
  "show_int i = (if i < 0 then CHR ''-'' # show_nat (nat (- i)) else show_nat (nat i))"

section \<open>Naive datetimes\<close>

text \<open>
  \<^verbatim>\<open>datetime.now()\<close> returns a naive datetime, a record of calendar fields. Python only
  builds valid ones (\<open>valid_datetime\<close>). The clock is an input of every handler: a handler
  takes the readings of \<^verbatim>\<open>datetime.now()\<close> it makes, in the order it makes them.
\<close>

record datetime =
  year :: nat
  month :: nat
  day :: nat
  hour :: nat
  minute :: nat
  second :: nat
  microsecond :: nat

definition is_leap :: "nat \<Rightarrow> bool" where
  "is_leap y = (y mod 4 = 0 \<and> (y mod 100 \<noteq> 0 \<or> y mod 400 = 0))"

definition days_in_month :: "nat \<Rightarrow> nat \<Rightarrow> nat" where
  "days_in_month y m =
     (if m = 2 \<and> is_leap y then 29
      else [31, 28, 31, 30, 31, 30, 31, 31, 30, 31, 30, 31] ! (m - 1))"

definition valid_datetime :: "datetime \<Rightarrow> bool" where
  "valid_datetime d =
     (1 \<le> year d \<and> year d \<le> 9999 \<and> 1 \<le> month d \<and> month d \<le> 12 \<and>
      1 \<le> day d \<and> day d \<le> days_in_month (year d) (month d) \<and>
      hour d < 24 \<and> minute d < 60 \<and> second d < 60 \<and> microsecond d < 1000000)"

definition days_before_year :: "nat \<Rightarrow> nat" where
  "days_before_year y = (y - 1) * 365 + (y - 1) div 4 - (y - 1) div 100 + (y - 1) div 400"

definition days_before_month :: "nat \<Rightarrow> nat \<Rightarrow> nat" where
  "days_before_month y m = sum_list (map (days_in_month y) [1..<m])"

text \<open>\<^verbatim>\<open>d.toordinal()\<close>: 1 is 0001-01-01.\<close>

definition toordinal :: "datetime \<Rightarrow> nat" where
  "toordinal d = days_before_year (year d) + days_before_month (year d) (month d) + day d"

text \<open>Microseconds since the start of day 0: the difference of two is the \<^verbatim>\<open>timedelta\<close>.\<close>

definition to_micros :: "datetime \<Rightarrow> int" where
  "to_micros d =
     (((int (toordinal d) * 24 + int (hour d)) * 60 + int (minute d)) * 60 + int (second d))
       * 1000000 + int (microsecond d)"

text \<open>
  \<^verbatim>\<open>(a - b).total_seconds()\<close>. Python returns the double nearest to this quotient; the
  model keeps the quotient itself.
\<close>

definition total_seconds :: "datetime \<Rightarrow> datetime \<Rightarrow> rat" where
  "total_seconds a b = of_int (to_micros a - to_micros b) / 1000000"

text \<open>
  \<^verbatim>\<open>d.timestamp()\<close>, seconds since 1970-01-01 (ordinal 719163), with the local time zone
  of the process taken to be UTC. Python returns the double nearest to this value: its
  whole seconds are those of the value for the years 1970 to 2500 (\<open>unix_era\<close>), where a
  double still separates microseconds.
\<close>

definition timestamp :: "datetime \<Rightarrow> rat" where
  "timestamp d = of_int (to_micros d - 719163 * 24 * 60 * 60 * 1000000) / 1000000"

text \<open>\<^verbatim>\<open>int(x)\<close> truncates towards zero.\<close>

definition py_int :: "rat \<Rightarrow> int" where
  "py_int x = (if 0 \<le> x then \<lfloor>x\<rfloor> else \<lceil>x\<rceil>)"

text \<open>\<^verbatim>\<open>d.isoformat()\<close>: the microseconds are left out when they are zero.\<close>

definition isoformat :: "datetime \<Rightarrow> string" where
  "isoformat d =
     zpad 4 (year d) @ ''-'' @ zpad 2 (month d) @ ''-'' @ zpad 2 (day d) @ ''T'' @
     zpad 2 (hour d) @ '':'' @ zpad 2 (minute d) @ '':'' @ zpad 2 (second d) @
     (if microsecond d = 0 then [] else ''.'' @ zpad 6 (microsecond d))"

text \<open>
  \<^verbatim>\<open>datetime.fromisoformat(x)\<close>, for the two shapes \<^verbatim>\<open>isoformat()\<close> writes
  (\<^verbatim>\<open>YYYY-MM-DDTHH:MM:SS\<close> and \<^verbatim>\<open>YYYY-MM-DDTHH:MM:SS.ffffff\<close>). The program stores no
  other timestamp. Python accepts further ISO 8601 spellings, which this model refuses
  with the \<^verbatim>\<open>ValueError\<close> that Python keeps for text that is no date at all.
\<close>

definition parse_iso :: "string \<Rightarrow> datetime option" where
  "parse_iso s =
     (if (length s = 19 \<or> length s = 26) \<and> s ! 4 = CHR ''-'' \<and> s ! 7 = CHR ''-'' \<and>
         s ! 10 = CHR ''T'' \<and> s ! 13 = CHR '':'' \<and> s ! 16 = CHR '':'' \<and>
         (length s = 19 \<or> s ! 19 = CHR ''.'')
      then
        (case (parse_digits (take 4 s), parse_digits (take 2 (drop 5 s)),
               parse_digits (take 2 (drop 8 s)), parse_digits (take 2 (drop 11 s)),
               parse_digits (take 2 (drop 14 s)), parse_digits (take 2 (drop 17 s)),
               parse_digits (drop 20 s)) of
           (Some y, Some mo, Some d, Some h, Some mi, Some se, Some us) \<Rightarrow>
             Some \<lparr>year = y, month = mo, day = d, hour = h, minute = mi, second = se,
                   microsecond = us\<rparr>
         | _ \<Rightarrow> None)
      else None)"

fun fromisoformat :: "json \<Rightarrow> error + datetime" where
  "fromisoformat (JStr s) =
     (case parse_iso s of
        Some d \<Rightarrow> if valid_datetime d then Inr d else Inl ValueError
      | None \<Rightarrow> Inl ValueError)"
| "fromisoformat _ = Inl TypeError"

section \<open>The three stores and the responses\<close>

text \<open>
  \<^verbatim>\<open>device_statuses\<close>, \<^verbatim>\<open>command_queues\<close> and \<^verbatim>\<open>recent_activities\<close> are module-level
  dictionaries keyed by device id. A handler is a function from the state to its response
  (the JSON body and the HTTP status) and the state it leaves. A handler mutates the stores
  in place, so what it did before an exception stays done.
\<close>

record state =
  device_statuses :: "(string \<times> json) list"
  command_queues :: "(string \<times> json list) list"
  recent_activities :: "(string \<times> json list) list"

definition init_state :: state where
  "init_state = \<lparr>device_statuses = [], command_queues = [], recent_activities = []\<rparr>"

type_synonym response = "json \<times> nat"

definition jsonify :: "json \<Rightarrow> response" where
  "jsonify body = (body, 200)"

text \<open>\<^verbatim>\<open>jsonify({'success': False, 'error': str(e)}), 500\<close>\<close>

definition failure_response :: "error \<Rightarrow> response" where
  "failure_response e = (JDict [(''success'', JBool False), (''error'', JStr (str_exc e))], 500)"

text \<open>\<^verbatim>\<open>jsonify({'error': str(e)}), 500\<close>\<close>

definition error_response :: "error \<Rightarrow> response" where
  "error_response e = (JDict [(''error'', JStr (str_exc e))], 500)"

section \<open>Device endpoints\<close>

text \<open>Lines 37 to 39 of \<^verbatim>\<open>device_heartbeat\<close>.\<close>

definition heartbeat_last_activity :: "state \<Rightarrow> string \<Rightarrow> error + json" where
  "heartbeat_last_activity s device_id =
     (case map_of (recent_activities s) device_id of
        Some (entry # _) \<Rightarrow> py_getitem entry ''timestamp''
      | _ \<Rightarrow> Inr (JStr ''Never''))"

text \<open>The dictionary of lines 41 to 51.\<close>

definition heartbeat_status :: "datetime \<Rightarrow> json \<Rightarrow> json \<Rightarrow> error + json" where
  "heartbeat_status now data last_activity =
     ebind (py_get data ''uptime_hours'' (JInt 0)) (\<lambda>uptime_hours.
     ebind (py_get data ''cpu_usage'' (JInt 0)) (\<lambda>cpu_usage.
     ebind (py_get data ''actions_today'' (JDict [])) (\<lambda>actions_today.
     ebind (py_get data ''next_scheduled'' JNull) (\<lambda>next_scheduled.
     ebind (py_get data ''content_version'' (JStr ''unknown'')) (\<lambda>content_version.
     ebind (py_get data ''twitter_logged_in'' (JBool False)) (\<lambda>twitter_logged_in.
     Inr (JDict
       [(''status'', JStr ''online''),
        (''last_seen'', JStr (isoformat now)),
        (''uptime_hours'', uptime_hours),
        (''cpu_usage'', cpu_usage),
        (''actions_today'', actions_today),
        (''next_scheduled'', next_scheduled),
        (''content_version'', content_version),
        (''twitter_logged_in'', twitter_logged_in),
        (''last_activity'', last_activity)])))))))"

definition device_heartbeat :: "(nat \<Rightarrow> datetime) \<Rightarrow> string \<Rightarrow> json \<Rightarrow> state \<Rightarrow> response \<times> state" where
  "device_heartbeat clock device_id request_json s =
     (let data = py_or request_json (JDict []) in
      case ebind (heartbeat_last_activity s device_id) (heartbeat_status (clock 0) data) of
        Inl e \<Rightarrow> (failure_response e, s)
      | Inr status \<Rightarrow>
          (jsonify (JDict [(''success'', JBool True), (''timestamp'', JStr (isoformat (clock 1)))]),
           s\<lparr>device_statuses := AList.update device_id status (device_statuses s)\<rparr>))"

text \<open>The dictionary of lines 69 to 75 of \<^verbatim>\<open>log_device_activity\<close>.\<close>

definition activity_entry :: "datetime \<Rightarrow> json \<Rightarrow> error + json" where
  "activity_entry now activity =
     ebind (py_get activity ''action'' (JStr ''unknown'')) (\<lambda>action.
     ebind (py_get activity ''success'' (JBool False)) (\<lambda>success.
     ebind (py_get activity ''details'' (JStr [])) (\<lambda>details.
     ebind (py_get activity ''content_preview'' (JStr [])) (\<lambda>preview.
     ebind (py_slice100 preview) (\<lambda>content_preview.
     Inr (JDict
       [(''timestamp'', JStr (isoformat now)),
        (''action'', action),
        (''success'', success),
        (''details'', details),
        (''content_preview'', content_preview)]))))))"

definition log_device_activity :: "(nat \<Rightarrow> datetime) \<Rightarrow> string \<Rightarrow> json \<Rightarrow> state \<Rightarrow> response \<times> state" where
  "log_device_activity clock device_id request_json s =
     (let activity = py_or request_json (JDict []);
          s1 = (if map_of (recent_activities s) device_id = None
                then s\<lparr>recent_activities := AList.update device_id [] (recent_activities s)\<rparr>
                else s)
      in case activity_entry (clock 0) activity of
           Inl e \<Rightarrow> (failure_response e, s1)
         | Inr entry \<Rightarrow>
             (let entries = (case map_of (recent_activities s1) device_id of
                               Some l \<Rightarrow> l | None \<Rightarrow> []);
                  s2 = s1\<lparr>recent_activities :=
                             AList.update device_id (take 50 (entry # entries)) (recent_activities s1)\<rparr>
              in case map_of (device_statuses s2) device_id of
                   None \<Rightarrow> (jsonify (JDict [(''success'', JBool True)]), s2)
                 | Some status \<Rightarrow>
                     (case ebind (py_getitem entry ''timestamp'')
                             (py_setitem status ''last_activity'') of
                        Inl e \<Rightarrow> (failure_response e, s2)
                      | Inr status' \<Rightarrow>
                          (jsonify (JDict [(''success'', JBool True)]),
                           s2\<lparr>device_statuses :=
                                 AList.update device_id status' (device_statuses s2)\<rparr>))))"

definition get_pending_commands :: "(nat \<Rightarrow> datetime) \<Rightarrow> string \<Rightarrow> state \<Rightarrow> response \<times> state" where
  "get_pending_commands clock device_id s =
     (let commands = (case map_of (command_queues s) device_id of Some q \<Rightarrow> q | None \<Rightarrow> [])
      in (jsonify (JDict [(''commands'', JList commands),
                          (''timestamp'', JStr (isoformat (clock 0)))]),
          s\<lparr>command_queues := AList.update device_id [] (command_queues s)\<rparr>))"

section \<open>Control room endpoints\<close>

text \<open>
  \<^verbatim>\<open>add_command\<close> reads the clock twice: \<open>t_id\<close> for the \<^verbatim>\<open>command_id\<close>, \<open>t_stamp\<close> for
  the \<^verbatim>\<open>timestamp\<close>.
\<close>

definition add_command :: "datetime \<Rightarrow> datetime \<Rightarrow> string \<Rightarrow> string \<Rightarrow> json \<Rightarrow> state \<Rightarrow> state" where
  "add_command t_id t_stamp device_id action params s =
     (let s1 = (if map_of (command_queues s) device_id = None
                then s\<lparr>command_queues := AList.update device_id [] (command_queues s)\<rparr>
                else s);
          command = JDict
            [(''command_id'', JStr (action @ ''_'' @ show_int (py_int (timestamp t_id)))),
             (''action'', JStr action),
             (''parameters'', py_or params (JDict [])),
             (''timestamp'', JStr (isoformat t_stamp))];
          queue = (case map_of (command_queues s1) device_id of Some q \<Rightarrow> q | None \<Rightarrow> [])
      in s1\<lparr>command_queues := AList.update device_id (queue @ [command]) (command_queues s1)\<rparr>)"

definition stop_device :: "(nat \<Rightarrow> datetime) \<Rightarrow> string \<Rightarrow> state \<Rightarrow> response \<times> state" where
  "stop_device clock device_id s =
     (jsonify (JDict [(''success'', JBool True),
                      (''message'', JStr (''Stop command sent to '' @ device_id))]),
      add_command (clock 0) (clock 1) device_id ''stop_bot''
        (JDict [(''reason'', JStr ''Manual stop from Control Room'')]) s)"

definition restart_device :: "(nat \<Rightarrow> datetime) \<Rightarrow> string \<Rightarrow> json \<Rightarrow> state \<Rightarrow> response \<times> state" where
  "restart_device clock device_id request_json s =
     (let params = py_or request_json (JDict []) in
      (jsonify (JDict [(''success'', JBool True),
                       (''message'', JStr (''Restart command sent to '' @ device_id))]),
       add_command (clock 0) (clock 1) device_id ''restart_bot'' params s))"

text \<open>
  The loop of \<^verbatim>\<open>emergency_stop_all\<close> over \<^verbatim>\<open>device_statuses.keys()\<close>: the \<open>i\<close>-th call of
  \<^verbatim>\<open>add_command\<close> makes the clock readings \<open>2 * i\<close> and \<open>2 * i + 1\<close> of the request.
\<close>

fun emergency_loop :: "(nat \<Rightarrow> datetime) \<Rightarrow> nat \<Rightarrow> string list \<Rightarrow> state \<Rightarrow> state" where
  "emergency_loop clock i [] s = s"
| "emergency_loop clock i (device_id # ids) s =
     emergency_loop clock (Suc i) ids
       (add_command (clock (2 * i)) (clock (2 * i + 1)) device_id ''emergency_stop''
          (JDict [(''priority'', JStr ''critical'')]) s)"

definition emergency_stop_all :: "(nat \<Rightarrow> datetime) \<Rightarrow> state \<Rightarrow> response \<times> state" where
  "emergency_stop_all clock s =
     (let stopped_devices = map fst (device_statuses s) in
      (jsonify (JDict
         [(''success'', JBool True),
          (''message'', JStr (''Emergency stop sent to '' @ show_nat (length stopped_devices)
                               @ '' devices'')),
          (''devices'', JList (map JStr stopped_devices))]),
       emergency_loop clock 0 stopped_devices s))"

section \<open>Eviction of stale devices\<close>

text \<open>
  \<^verbatim>\<open>cleanup_offline_devices\<close> walks a copy of the items (\<^verbatim>\<open>list(device_statuses.items())\<close>)
  and deletes from the live dictionary. \<^verbatim>\<open>del device_statuses[device_id]\<close> raises
  \<^verbatim>\<open>KeyError\<close> when the key is no longer in the dictionary. An exception leaves the loop
  with the deletions made so far.
\<close>

fun cleanup_loop :: "datetime \<Rightarrow> (string \<times> json) list \<Rightarrow> state \<Rightarrow> (error + unit) \<times> state" where
  "cleanup_loop current_time [] s = (Inr (), s)"
| "cleanup_loop current_time ((device_id, status) # items) s =
     (case ebind (py_getitem status ''last_seen'') fromisoformat of
        Inl e \<Rightarrow> (Inl e, s)
      | Inr last_seen \<Rightarrow>
          (let minutes_offline = total_seconds current_time last_seen / 60 in
           if minutes_offline > 10
           then (if map_of (device_statuses s) device_id = None then (Inl KeyError, s)
                 else cleanup_loop current_time items
                        (s\<lparr>device_statuses := AList.delete device_id (device_statuses s)\<rparr>))
           else cleanup_loop current_time items s))"

definition cleanup_offline_devices :: "datetime \<Rightarrow> state \<Rightarrow> (error + unit) \<times> state" where
  "cleanup_offline_devices current_time s = cleanup_loop current_time (device_statuses s) s"

section \<open>Monitoring endpoints\<close>

text \<open>\<^verbatim>\<open>len([d for d in device_statuses.values() if d['status'] == 'online'])\<close>\<close>

fun count_online :: "json list \<Rightarrow> error + nat" where
  "count_online [] = Inr 0"
| "count_online (d # ds) =
     ebind (py_getitem d ''status'') (\<lambda>st.
     ebind (count_online ds) (\<lambda>n.
     Inr (if st = JStr ''online'' then Suc n else n)))"

definition get_all_status :: "(nat \<Rightarrow> datetime) \<Rightarrow> state \<Rightarrow> response \<times> state" where
  "get_all_status clock s =
     (case cleanup_offline_devices (clock 0) s of
        (Inl e, s') \<Rightarrow> (error_response e, s')
      | (Inr _, s') \<Rightarrow>
          (case count_online (map snd (device_statuses s')) of
             Inl e \<Rightarrow> (error_response e, s')
           | Inr n \<Rightarrow>
               (jsonify (JDict
                  [(''timestamp'', JStr (isoformat (clock 1))),
                   (''devices'', JDict (device_statuses s')),
                   (''recent_activities'',
                      JDict (map (\<lambda>(k, l). (k, JList l)) (recent_activities s'))),
                   (''total_devices'', JInt (int (length (device_statuses s')))),
                   (''online_devices'', JInt (int n))]),
                s')))"

text \<open>
  \<^verbatim>\<open>app.run\<close> starts Flask's threaded server: each request runs in its own thread on the
  shared dictionaries, and another request can run between the copy of the items (line
  299) and the loop over the copy. \<open>get_all_status_resumed clock items s\<close> is
  \<^verbatim>\<open>get_all_status\<close> from the loop on, where \<open>items\<close> is the copy it took and \<open>s\<close> the state
  the other request left. Without a request in between it is \<^verbatim>\<open>get_all_status\<close> itself.
\<close>

definition get_all_status_resumed ::
  "(nat \<Rightarrow> datetime) \<Rightarrow> (string \<times> json) list \<Rightarrow> state \<Rightarrow> response \<times> state" where
  "get_all_status_resumed clock items s =
     (case cleanup_loop (clock 0) items s of
        (Inl e, s') \<Rightarrow> (error_response e, s')
      | (Inr _, s') \<Rightarrow>
          (case count_online (map snd (device_statuses s')) of
             Inl e \<Rightarrow> (error_response e, s')
           | Inr n \<Rightarrow>
               (jsonify (JDict
                  [(''timestamp'', JStr (isoformat (clock 1))),
                   (''devices'', JDict (device_statuses s')),
                   (''recent_activities'',
                      JDict (map (\<lambda>(k, l). (k, JList l)) (recent_activities s'))),
                   (''total_devices'', JInt (int (length (device_statuses s')))),
                   (''online_devices'', JInt (int n))]),
                s')))"

section \<open>Analytics\<close>

text \<open>
  A value of the analytics is an \<^verbatim>\<open>int\<close> or the \<^verbatim>\<open>float\<close> a true division returns.
  \<open>PyFloat q\<close> stands for the double Python rounds the quotient \<open>q\<close> to.
\<close>

datatype number = PyInt int | PyFloat rat

text \<open>
  \<^verbatim>\<open>a / b\<close> on integers. The quotient is rounded to the nearest double, and one that rounds
  beyond the largest double \<open>2 ^ 1024 - 2 ^ 971\<close> raises \<^verbatim>\<open>OverflowError\<close>.
\<close>

definition py_truediv :: "int \<Rightarrow> int \<Rightarrow> error + rat" where
  "py_truediv a b =
     (if b = 0 then Inl ZeroDivisionError
      else if \<bar>of_int a / of_int b :: rat\<bar> \<ge> 2 ^ 1024 - 2 ^ 970 then Inl OverflowError
      else Inr (of_int a / of_int b))"

text \<open>\<^verbatim>\<open>len([d for d in devices.values() if d.get('status') == 'online'])\<close>\<close>

fun count_online_get :: "json list \<Rightarrow> error + nat" where
  "count_online_get [] = Inr 0"
| "count_online_get (d # ds) =
     ebind (py_get d ''status'' JNull) (\<lambda>st.
     ebind (count_online_get ds) (\<lambda>n.
     Inr (if st = JStr ''online'' then Suc n else n)))"

text \<open>\<^verbatim>\<open>sum(actions_today.values()) if isinstance(actions_today, dict) else 0\<close>\<close>

fun sum_if_dict :: "json \<Rightarrow> error + int" where
  "sum_if_dict (JDict d) = py_sum (map snd d)"
| "sum_if_dict _ = Inr 0"

text \<open>
  The loop of lines 184 to 190, on the accumulators \<open>total_actions\<close>, \<open>total_tweets\<close>,
  \<open>total_replies\<close>, \<open>total_retweets\<close> and \<open>total_uptime\<close>.
\<close>

fun analytics_totals ::
  "json list \<Rightarrow> int \<times> int \<times> int \<times> int \<times> int \<Rightarrow> error + (int \<times> int \<times> int \<times> int \<times> int)" where
  "analytics_totals [] acc = Inr acc"
| "analytics_totals (device_data # rest)
     (total_actions, total_tweets, total_replies, total_retweets, total_uptime) =
     ebind (py_get device_data ''actions_today'' (JDict [])) (\<lambda>actions_today.
     ebind (py_get actions_today ''tweets'' (JInt 0)) (\<lambda>t.
     ebind (py_add total_tweets t) (\<lambda>total_tweets'.
     ebind (py_get actions_today ''replies'' (JInt 0)) (\<lambda>r.
     ebind (py_add total_replies r) (\<lambda>total_replies'.
     ebind (py_get actions_today ''retweets'' (JInt 0)) (\<lambda>rt.
     ebind (py_add total_retweets rt) (\<lambda>total_retweets'.
     ebind (sum_if_dict actions_today) (\<lambda>sm.
     ebind (py_get device_data ''uptime_hours'' (JInt 0)) (\<lambda>u.
     ebind (py_add total_uptime u) (\<lambda>total_uptime'.
     analytics_totals rest
       (total_actions + sm, total_tweets', total_replies', total_retweets',
        total_uptime')))))))))))"

text \<open>\<^verbatim>\<open>device_id.replace('bot_', '')\<close>\<close>

function replace_bot :: "string \<Rightarrow> string" where
  "replace_bot [] = []"
| "replace_bot (c # cs) =
     (if take 4 (c # cs) = ''bot_'' then replace_bot (drop 3 cs) else c # replace_bot cs)"
  by pat_completeness auto
termination
  by (relation "measure length") auto

record device_detail =
  dd_id :: string
  dd_name :: string
  dd_status :: json
  dd_uptime_hours :: json
  dd_actions_today :: json
  dd_total_actions :: int
  dd_last_activity :: json
  dd_cpu_usage :: json
  dd_memory_usage :: json

text \<open>The loop of lines 199 to 213.\<close>

fun analytics_details :: "(string \<times> json) list \<Rightarrow> error + device_detail list" where
  "analytics_details [] = Inr []"
| "analytics_details ((device_id, device_data) # rest) =
     ebind (py_get device_data ''actions_today'' (JDict [])) (\<lambda>actions_today.
     ebind (sum_if_dict actions_today) (\<lambda>total_device_actions.
     ebind (py_get device_data ''status'' (JStr ''unknown'')) (\<lambda>st.
     ebind (py_get device_data ''uptime_hours'' (JInt 0)) (\<lambda>up.
     ebind (py_get device_data ''last_activity'' (JStr ''Never'')) (\<lambda>la.
     ebind (py_get device_data ''cpu_usage'' (JInt 0)) (\<lambda>cpu.
     ebind (py_get device_data ''memory_usage'' (JInt 0)) (\<lambda>mem.
     ebind (analytics_details rest) (\<lambda>details.
     Inr (\<lparr>dd_id = device_id, dd_name = replace_bot device_id, dd_status = st,
            dd_uptime_hours = up, dd_actions_today = actions_today,
            dd_total_actions = total_device_actions, dd_last_activity = la,
            dd_cpu_usage = cpu, dd_memory_usage = mem\<rparr> # details)))))))))"

record fleet_overview =
  total_devices :: int
  online_devices :: int
  offline_devices :: int
  total_uptime_hours :: int
  average_uptime_hours :: number

record action_breakdown =
  total_actions :: int
  tweets :: int
  replies :: int
  retweets :: int
  tweet_percentage :: number
  reply_percentage :: number
  retweet_percentage :: number

record performance_metrics =
  avg_actions_per_device :: number
  uptime_percentage :: number
  action_efficiency :: number
  device_health_score :: number

record analytics_data =
  fleet_overview :: fleet_overview
  action_breakdown :: action_breakdown
  device_details :: "device_detail list"
  performance_metrics :: performance_metrics
  top_performers :: "device_detail list"

text \<open>\<^verbatim>\<open>a / b if b > 0 else 0\<close> and \<^verbatim>\<open>(a / b * 100) if b > 0 else 0\<close>\<close>

definition ratio_or_zero :: "int \<Rightarrow> int \<Rightarrow> error + number" where
  "ratio_or_zero a b =
     (if b > 0 then ebind (py_truediv a b) (\<lambda>q. Inr (PyFloat q)) else Inr (PyInt 0))"

definition percent_or_zero :: "int \<Rightarrow> int \<Rightarrow> error + number" where
  "percent_or_zero a b =
     (if b > 0 then ebind (py_truediv a b) (\<lambda>q. Inr (PyFloat (q * 100))) else Inr (PyInt 0))"

text \<open>
  Lines 173 to 244 of \<^verbatim>\<open>get_analytics\<close>, on the registry as eviction left it.
  \<^verbatim>\<open>sort(key=..., reverse=True)\<close> is a stable sort on the negated key.
\<close>

definition compute_analytics :: "(string \<times> json) list \<Rightarrow> error + analytics_data" where
  "compute_analytics devices =
     (let total_devices = int (length devices) in
      ebind (count_online_get (map snd devices)) (\<lambda>n.
      let online_devices = int n in
      ebind (analytics_totals (map snd devices) (0, 0, 0, 0, 0))
        (\<lambda>(total_actions, total_tweets, total_replies, total_retweets, total_uptime).
      ebind (ratio_or_zero total_uptime total_devices) (\<lambda>avg_uptime.
      ebind (percent_or_zero online_devices total_devices) (\<lambda>uptime_percentage.
      ebind (ratio_or_zero total_actions total_devices) (\<lambda>avg_actions_per_device.
      ebind (analytics_details devices) (\<lambda>details.
      let device_details = sort_key (\<lambda>x. - dd_total_actions x) details;
          top_performers = (if length device_details \<ge> 3 then take 3 device_details
                            else device_details) in
      ebind (percent_or_zero total_tweets total_actions) (\<lambda>tweet_percentage.
      ebind (percent_or_zero total_replies total_actions) (\<lambda>reply_percentage.
      ebind (percent_or_zero total_retweets total_actions) (\<lambda>retweet_percentage.
      ebind (ratio_or_zero total_actions total_uptime) (\<lambda>action_efficiency.
      ebind (percent_or_zero online_devices total_devices) (\<lambda>device_health_score.
      Inr \<lparr>fleet_overview =
             \<lparr>total_devices = total_devices, online_devices = online_devices,
              offline_devices = total_devices - online_devices,
              total_uptime_hours = total_uptime, average_uptime_hours = avg_uptime\<rparr>,
           action_breakdown =
             \<lparr>total_actions = total_actions, tweets = total_tweets,
              replies = total_replies, retweets = total_retweets,
              tweet_percentage = tweet_percentage, reply_percentage = reply_percentage,
              retweet_percentage = retweet_percentage\<rparr>,
           device_details = device_details,
           performance_metrics =
             \<lparr>avg_actions_per_device = avg_actions_per_device,
              uptime_percentage = uptime_percentage,
              action_efficiency = action_efficiency,
              device_health_score = device_health_score\<rparr>,
           top_performers = top_performers\<rparr>))))))))))))"

text \<open>
  The body of the analytics response: \<^verbatim>\<open>{'timestamp': ..., 'analytics': ...}\<close>, or
  \<^verbatim>\<open>{'error': str(e)}\<close>.
\<close>

datatype analytics_body = Analytics string analytics_data | AnalyticsError string

definition get_analytics :: "(nat \<Rightarrow> datetime) \<Rightarrow> state \<Rightarrow> (analytics_body \<times> nat) \<times> state" where
  "get_analytics clock s =
     (case cleanup_offline_devices (clock 0) s of
        (Inl e, s') \<Rightarrow> ((AnalyticsError (str_exc e), 500), s')
      | (Inr _, s') \<Rightarrow>
          (case compute_analytics (device_statuses s') of
             Inl e \<Rightarrow> ((AnalyticsError (str_exc e), 500), s')
           | Inr analytics \<Rightarrow> ((Analytics (isoformat (clock 1)) analytics, 200), s')))"

section \<open>Runs of the service\<close>

text \<open>
  A device's queue and log as a reader sees them: a missing key reads as the empty list
  (\<^verbatim>\<open>command_queues.get(device_id, [])\<close>).
\<close>

definition queue_of :: "state \<Rightarrow> string \<Rightarrow> json list" where
  "queue_of s device_id = (case map_of (command_queues s) device_id of Some q \<Rightarrow> q | None \<Rightarrow> [])"

definition log_of :: "state \<Rightarrow> string \<Rightarrow> json list" where
  "log_of s device_id = (case map_of (recent_activities s) device_id of Some l \<Rightarrow> l | None \<Rightarrow> [])"

text \<open>Every reading of the clock lies in the years 1970 to 2500.\<close>

definition unix_era :: "(nat \<Rightarrow> datetime) \<Rightarrow> bool" where
  "unix_era clock = (\<forall>n. 1970 \<le> year (clock n) \<and> year (clock n) \<le> 2500)"

text \<open>Every reading of the clock is a datetime Python can build.\<close>

definition valid_clock :: "(nat \<Rightarrow> datetime) \<Rightarrow> bool" where
  "valid_clock clock = (\<forall>n. valid_datetime (clock n))"

text \<open>
  One request: each handler is a step of the service. The states the service can be in
  are those a sequence of requests reaches from the three empty dictionaries the module
  starts with.
\<close>

inductive step :: "state \<Rightarrow> state \<Rightarrow> bool" where
  heartbeat: "valid_clock clock \<Longrightarrow>
    step s (snd (device_heartbeat clock device_id request_json s))"
| activity: "valid_clock clock \<Longrightarrow>
    step s (snd (log_device_activity clock device_id request_json s))"
| commands: "valid_clock clock \<Longrightarrow>
    step s (snd (get_pending_commands clock device_id s))"
| stop: "valid_clock clock \<Longrightarrow>
    step s (snd (stop_device clock device_id s))"
| restart: "valid_clock clock \<Longrightarrow>
    step s (snd (restart_device clock device_id request_json s))"
| emergency: "valid_clock clock \<Longrightarrow>
    step s (snd (emergency_stop_all clock s))"
| status: "valid_clock clock \<Longrightarrow>
    step s (snd (get_all_status clock s))"
| analytics: "valid_clock clock \<Longrightarrow>
    step s (snd (get_analytics clock s))"

definition reachable :: "state \<Rightarrow> bool" where
  "reachable s = step\<^sup>*\<^sup>* init_state s"

text \<open>
  What the handlers keep true of the stores: one entry per key, a \<^verbatim>\<open>last_seen\<close> in every
  status that \<^verbatim>\<open>fromisoformat\<close> reads, and logs of at most 50 entries that each carry a
  \<^verbatim>\<open>timestamp\<close> and a \<^verbatim>\<open>content_preview\<close> of at most 100 items.
\<close>

definition wf_status :: "json \<Rightarrow> bool" where
  "wf_status status =
     (case ebind (py_getitem status ''last_seen'') fromisoformat of
        Inr _ \<Rightarrow> True | Inl _ \<Rightarrow> False)"

definition preview_ok :: "json \<Rightarrow> bool" where
  "preview_ok entry =
     (case py_getitem entry ''content_preview'' of
        Inr (JStr p) \<Rightarrow> length p \<le> 100
      | Inr (JList p) \<Rightarrow> length p \<le> 100
      | _ \<Rightarrow> False)"

definition wf_entry :: "json \<Rightarrow> bool" where
  "wf_entry entry =
     ((case py_getitem entry ''timestamp'' of Inr _ \<Rightarrow> True | Inl _ \<Rightarrow> False) \<and>
      preview_ok entry)"

definition wf_log :: "json list \<Rightarrow> bool" where
  "wf_log entries = (length entries \<le> 50 \<and> list_all wf_entry entries)"

definition wf_state :: "state \<Rightarrow> bool" where
  "wf_state s =
     (distinct (map fst (device_statuses s)) \<and>
      distinct (map fst (command_queues s)) \<and>
      distinct (map fst (recent_activities s)) \<and>
      list_all (\<lambda>p. wf_status (snd p)) (device_statuses s) \<and>
      list_all (\<lambda>p. wf_log (snd p)) (recent_activities s))"

text \<open>
  A status is older than ten minutes at \<open>now\<close> when its \<^verbatim>\<open>last_seen\<close> lies more than
  \<open>10 * 60 * 1000000\<close> microseconds before \<open>now\<close>.
\<close>

definition older_than_10_minutes :: "datetime \<Rightarrow> json \<Rightarrow> bool" where
  "older_than_10_minutes now status =
     (case ebind (py_getitem status ''last_seen'') fromisoformat of
        Inr last_seen \<Rightarrow> to_micros now - to_micros last_seen > 10 * 60 * 1000000
      | Inl _ \<Rightarrow> False)"

text \<open>
  The items of a copy that are older than ten minutes at \<open>now\<close>, in the order of the copy.
\<close>

definition stale_items :: "datetime \<Rightarrow> (string \<times> json) list \<Rightarrow> (string \<times> json) list" where
  "stale_items now items = filter (\<lambda>p. older_than_10_minutes now (snd p)) items"

definition registered :: "state \<Rightarrow> string \<Rightarrow> bool" where
  "registered s device_id = (map_of (device_statuses s) device_id \<noteq> None)"

text \<open>
  The stale items of the copy that come before the first one missing from the registry
  of \<open>s\<close>, and the stale items from that one on.
\<close>

definition evictable :: "datetime \<Rightarrow> (string \<times> json) list \<Rightarrow> state \<Rightarrow> (string \<times> json) list" where
  "evictable now items s = takeWhile (\<lambda>p. registered s (fst p)) (stale_items now items)"

definition missing :: "datetime \<Rightarrow> (string \<times> json) list \<Rightarrow> state \<Rightarrow> (string \<times> json) list" where
  "missing now items s = dropWhile (\<lambda>p. registered s (fst p)) (stale_items now items)"

text \<open>A field of a heartbeat report, or the default when the report has no such field.\<close>

definition report_field :: "(string \<times> json) list \<Rightarrow> string \<Rightarrow> json \<Rightarrow> json" where
  "report_field report k dflt = (case map_of report k of Some v \<Rightarrow> v | None \<Rightarrow> dflt)"

text \<open>
  The status a heartbeat with the fields \<open>report\<close> stores at the clock reading \<open>now\<close> when
  the last activity is \<open>last_activity\<close>, with the defaults for the missing fields.
\<close>

definition status_of_report :: "datetime \<Rightarrow> (string \<times> json) list \<Rightarrow> json \<Rightarrow> json" where
  "status_of_report now report last_activity =
     JDict
       [(''status'', JStr ''online''),
        (''last_seen'', JStr (isoformat now)),
        (''uptime_hours'', report_field report ''uptime_hours'' (JInt 0)),
        (''cpu_usage'', report_field report ''cpu_usage'' (JInt 0)),
        (''actions_today'', report_field report ''actions_today'' (JDict [])),
        (''next_scheduled'', report_field report ''next_scheduled'' JNull),
        (''content_version'', report_field report ''content_version'' (JStr ''unknown'')),
        (''twitter_logged_in'', report_field report ''twitter_logged_in'' (JBool False)),
        (''last_activity'', last_activity)]"

text \<open>A sequence of activity reports of one device, each with the clock of its request.\<close>

fun log_many :: "string \<Rightarrow> ((nat \<Rightarrow> datetime) \<times> json) list \<Rightarrow> state \<Rightarrow> state" where
  "log_many device_id [] s = s"
| "log_many device_id ((clock, request_json) # requests) s =
     log_many device_id requests (snd (log_device_activity clock device_id request_json s))"

text \<open>The entry an activity request builds, or the exception it raises.\<close>

definition entry_of :: "(nat \<Rightarrow> datetime) \<times> json \<Rightarrow> error + json" where
  "entry_of request = activity_entry (fst request 0) (py_or (snd request) (JDict []))"

text \<open>The command the \<open>i\<close>-th iteration of \<^verbatim>\<open>emergency_stop_all\<close> enqueues.\<close>

definition emergency_command :: "(nat \<Rightarrow> datetime) \<Rightarrow> nat \<Rightarrow> json" where
  "emergency_command clock i =
     JDict
       [(''command_id'',
           JStr (''emergency_stop_'' @ show_int (py_int (timestamp (clock (2 * i)))))),
        (''action'', JStr ''emergency_stop''),
        (''parameters'', JDict [(''priority'', JStr ''critical'')]),
        (''timestamp'', JStr (isoformat (clock (2 * i + 1))))]"

text \<open>
  The count an action value adds to a total, and the values of all keys of a device's
  \<^verbatim>\<open>actions_today\<close> mapping (no values when the field is no mapping).
\<close>

fun count_value :: "json \<Rightarrow> int" where
  "count_value (JInt n) = n"
| "count_value (JBool b) = (if b then 1 else 0)"
| "count_value _ = 0"

definition action_values :: "json \<Rightarrow> json list" where
  "action_values device_data =
     (case py_get device_data ''actions_today'' (JDict []) of
        Inr (JDict actions) \<Rightarrow> map snd actions
      | _ \<Rightarrow> [])"

definition all_action_values :: "(string \<times> json) list \<Rightarrow> json list" where
  "all_action_values devices = concat (map (\<lambda>p. action_values (snd p)) devices)"

text \<open>The number a percentage field of the analytics stands for.\<close>

fun number_value :: "number \<Rightarrow> rat" where
  "number_value (PyInt n) = of_int n"
| "number_value (PyFloat q) = q"


text \<open>What one device reports under the action kind \<open>k\<close>, \<open>0\<close> when it has no such key.\<close>

definition category_count :: "string \<Rightarrow> json \<Rightarrow> int" where
  "category_count k device_data =
     (case py_get device_data ''actions_today'' (JDict []) of
        Inr (JDict actions) \<Rightarrow> count_value (report_field actions k (JInt 0))
      | _ \<Rightarrow> 0)"

text \<open>
  The entry an activity report with the fields \<open>report\<close> is logged as at the clock
  reading \<open>now\<close>, given what is stored as its \<^verbatim>\<open>content_preview\<close>.
\<close>

definition entry_of_report :: "datetime \<Rightarrow> (string \<times> json) list \<Rightarrow> json \<Rightarrow> json" where
  "entry_of_report now report preview =
     JDict
       [(''timestamp'', JStr (isoformat now)),
        (''action'', report_field report ''action'' (JStr ''unknown'')),
        (''success'', report_field report ''success'' (JBool False)),
        (''details'', report_field report ''details'' (JStr [])),
        (''content_preview'', preview)]"

section \<open>Sample data\<close>

definition t_7h00 :: datetime where
  "t_7h00 = \<lparr>year = 2026, month = 11, day = 4, hour = 7, minute = 0, second = 0,
             microsecond = 0\<rparr>"

definition t_7h02 :: datetime where
  "t_7h02 = t_7h00\<lparr>minute := 2\<rparr>"

definition t_7h12 :: datetime where
  "t_7h12 = t_7h00\<lparr>minute := 12\<rparr>"

text \<open>
  Two devices that sent one heartbeat each, \<^verbatim>\<open>bot_a\<close> at 7:00 and \<^verbatim>\<open>bot_b\<close> at 7:02.
\<close>

definition two_devices :: state where
  "two_devices =
     snd (device_heartbeat (\<lambda>n. t_7h02) ''bot_b'' JNull
       (snd (device_heartbeat (\<lambda>n. t_7h00) ''bot_a'' JNull init_state)))"

definition t_7h12_late :: datetime where
  "t_7h12_late = t_7h12\<lparr>microsecond := 1\<rparr>"

text \<open>
  \<^verbatim>\<open>bot_a\<close> and \<^verbatim>\<open>bot_b\<close> sent a heartbeat at 7:00 and \<^verbatim>\<open>bot_a\<close> another one at 7:02: the
  registry holds \<^verbatim>\<open>bot_a\<close>, last seen at 7:02, and then \<^verbatim>\<open>bot_b\<close>, last seen at 7:00.
\<close>

definition staggered_devices :: state where
  "staggered_devices =
     snd (device_heartbeat (\<lambda>n. t_7h02) ''bot_a'' JNull
       (snd (device_heartbeat (\<lambda>n. t_7h00) ''bot_b'' JNull
         (snd (device_heartbeat (\<lambda>n. t_7h00) ''bot_a'' JNull init_state)))))"

text \<open>The state a status request that read the clock at 7:12:00 leaves.\<close>

definition after_first_request :: state where
  "after_first_request = snd (get_all_status (\<lambda>n. t_7h12) staggered_devices)"

text \<open>\<^verbatim>\<open>bot_a\<close> reported one activity at 7:00.\<close>

definition active_device :: state where
  "active_device =
     snd (log_device_activity (\<lambda>n. t_7h00) ''bot_a'' (JDict [(''action'', JStr ''tweet'')])
       init_state)"

text \<open>51 activity reports, numbered in their \<^verbatim>\<open>details\<close>, and the entries they build.\<close>

definition numbered_request :: "nat \<Rightarrow> (nat \<Rightarrow> datetime) \<times> json" where
  "numbered_request i = (\<lambda>n. t_7h00, JDict [(''details'', JInt (int i))])"

definition numbered_entry :: "nat \<Rightarrow> json" where
  "numbered_entry i =
     JDict
       [(''timestamp'', JStr (isoformat t_7h00)),
        (''action'', JStr ''unknown''),
        (''success'', JBool False),
        (''details'', JInt (int i)),
        (''content_preview'', JStr [])]"

text \<open>Three devices that sent one heartbeat each at 7:00.\<close>

definition three_devices :: state where
  "three_devices =
     snd (device_heartbeat (\<lambda>n. t_7h00) ''bot_c'' JNull
       (snd (device_heartbeat (\<lambda>n. t_7h00) ''bot_b'' JNull
         (snd (device_heartbeat (\<lambda>n. t_7h00) ''bot_a'' JNull init_state)))))"

text \<open>A device whose heartbeat reported the number 5 as its \<^verbatim>\<open>actions_today\<close>.\<close>

definition misreporting_device :: state where
  "misreporting_device =
     snd (device_heartbeat (\<lambda>n. t_7h00) ''bot_x'' (JDict [(''actions_today'', JInt 5)])
       init_state)"

text \<open>A device that reported one tweet and one like.\<close>

definition liking_device :: state where
  "liking_device =
     snd (device_heartbeat (\<lambda>n. t_7h00) ''bot_l''
       (JDict [(''actions_today'', JDict [(''tweets'', JInt 1), (''likes'', JInt 1)])])
       init_state)"

text \<open>The analytics of \<open>liking_device\<close>.\<close>

definition liking_detail :: device_detail where
  "liking_detail =
     \<lparr>dd_id = ''bot_l'', dd_name = ''l'', dd_status = JStr ''online'',
      dd_uptime_hours = JInt 0,
      dd_actions_today = JDict [(''tweets'', JInt 1), (''likes'', JInt 1)],
      dd_total_actions = 2, dd_last_activity = JStr ''Never'',
      dd_cpu_usage = JInt 0, dd_memory_usage = JInt 0\<rparr>"

definition liking_analytics :: analytics_data where
  "liking_analytics =
     \<lparr>fleet_overview =
        \<lparr>total_devices = 1, online_devices = 1, offline_devices = 0,
         total_uptime_hours = 0, average_uptime_hours = PyFloat 0\<rparr>,
      action_breakdown =
        \<lparr>total_actions = 2, tweets = 1, replies = 0, retweets = 0,
         tweet_percentage = PyFloat 50, reply_percentage = PyFloat 0,
         retweet_percentage = PyFloat 0\<rparr>,
      device_details = [liking_detail],
      performance_metrics =
        \<lparr>avg_actions_per_device = PyFloat 2, uptime_percentage = PyFloat 100,
         action_efficiency = PyInt 0, device_health_score = PyFloat 100\<rparr>,
      top_performers = [liking_detail]\<rparr>"

text \<open>An activity report whose \<^verbatim>\<open>content_preview\<close> has 150 characters.\<close>

definition long_report :: "(string \<times> json) list" where
  "long_report =
     [(''action'', JStr ''tweet''), (''content_preview'', JStr (replicate 150 CHR ''x''))]"

text \<open>
  The three devices, after the operator sent a stop command to \<^verbatim>\<open>bot_d\<close>, which has not
  registered yet.
\<close>

definition prequeued_device :: state where
  "prequeued_device = snd (stop_device (\<lambda>n. t_7h00) ''bot_d'' three_devices)"

section \<open>Draining a command queue\<close>

lemma map_of_update_same: "map_of (AList.update k v al) k = Some v"
  by (simp add: update_conv')

lemma map_of_update_other: "k' \<noteq> k \<Longrightarrow> map_of (AList.update k v al) k' = map_of al k'"
  by (simp add: update_conv')

lemma keys_update: "fst ` set (AList.update k v al) = insert k (fst ` set al)"
  by (simp add: dom_update)

text \<open>
  C2. \<^verbatim>\<open>get_pending_commands\<close> returns the whole queue of the device and leaves it empty:
  a second poll with nothing enqueued in between returns the empty list, whatever the
  clock reads.
\<close>

theorem drain_returns_all_then_nothing:
  "fst (get_pending_commands clock device_id s) =
     (JDict [(''commands'', JList (queue_of s device_id)),
             (''timestamp'', JStr (isoformat (clock 0)))], 200) \<and>
   queue_of (snd (get_pending_commands clock device_id s)) device_id = [] \<and>
   fst (get_pending_commands clock' device_id (snd (get_pending_commands clock device_id s))) =
     (JDict [(''commands'', JList []), (''timestamp'', JStr (isoformat (clock' 0)))], 200)"
  by (simp add: get_pending_commands_def queue_of_def jsonify_def map_of_update_same)

text \<open>
  C10. Polling a device id with nothing queued, also an id never seen before, returns the
  empty command list and leaves the id bound to the empty list in \<^verbatim>\<open>command_queues\<close>:
  the keys of the map grow by that id. No other id's entry changes, and neither do the
  registry and the activity logs.
\<close>

theorem poll_binds_id_to_empty_queue:
  assumes "queue_of s device_id = []"
  shows "fst (get_pending_commands clock device_id s) =
           (JDict [(''commands'', JList []), (''timestamp'', JStr (isoformat (clock 0)))], 200) \<and>
         map_of (command_queues (snd (get_pending_commands clock device_id s))) device_id = Some [] \<and>
         fst ` set (command_queues (snd (get_pending_commands clock device_id s))) =
           insert device_id (fst ` set (command_queues s)) \<and>
         (\<forall>other. other \<noteq> device_id \<longrightarrow>
            map_of (command_queues (snd (get_pending_commands clock device_id s))) other =
            map_of (command_queues s) other) \<and>
         device_statuses (snd (get_pending_commands clock device_id s)) = device_statuses s \<and>
         recent_activities (snd (get_pending_commands clock device_id s)) = recent_activities s"
  using assms
  by (simp add: get_pending_commands_def queue_of_def jsonify_def map_of_update_same
      map_of_update_other keys_update)

theorem poll_binds_id_to_empty_queue_witness:
  "queue_of init_state ''bot_new'' = [] \<and>
   map_of (command_queues init_state) ''bot_new'' = None \<and>
   map_of (command_queues (snd (get_pending_commands (\<lambda>n. t_7h00) ''bot_new'' init_state)))
     ''bot_new'' = Some [] \<and>
   fst ` set (command_queues (snd (get_pending_commands (\<lambda>n. t_7h00) ''bot_new'' init_state))) =
     {''bot_new''}"
proof -
  have h: "queue_of init_state ''bot_new'' = []"
    by (simp add: queue_of_def init_state_def)
  show ?thesis
    using h poll_binds_id_to_empty_queue [OF h, of "\<lambda>n. t_7h00"]
    by (simp add: init_state_def)
qed

section \<open>Timestamps are read back as written\<close>

lemma length_zpad [simp]: "length (zpad w n) = w"
  by (induction w arbitrary: n) auto

lemma digit_char_ok: "n < 10 \<Longrightarrow> is_digit (digit_char n) \<and> digit_val (digit_char n) = n"
  by (simp add: is_digit_def digit_val_def digit_char_def)

lemma all_digits_zpad: "list_all is_digit (zpad w n)"
  by (induction w arbitrary: n) (auto simp: digit_char_ok)

lemma foldl_zpad: "n < 10 ^ w \<Longrightarrow> foldl (\<lambda>a c. 10 * a + digit_val c) 0 (zpad w n) = n"
proof (induction w arbitrary: n)
  case 0 then show ?case by simp
next
  case (Suc w)
  have "n div 10 < 10 ^ w" using Suc.prems by (simp add: less_mult_imp_div_less mult.commute)
  then show ?case using Suc.IH[of "n div 10"] by (simp add: digit_char_ok)
qed

lemma parse_digits_zpad: "n < 10 ^ w \<Longrightarrow> parse_digits (zpad w n) = Some n"
  by (simp add: parse_digits_def all_digits_zpad foldl_zpad)

lemma parse_digits_Nil [simp]: "parse_digits [] = Some 0"
  by (simp add: parse_digits_def)

lemma days_in_month_le: "1 \<le> m \<Longrightarrow> m \<le> 12 \<Longrightarrow> days_in_month y m \<le> 31"
proof -
  assume "1 \<le> m" "m \<le> 12"
  then have "m = 1 \<or> m = 2 \<or> m = 3 \<or> m = 4 \<or> m = 5 \<or> m = 6 \<or> m = 7 \<or> m = 8 \<or>
    m = 9 \<or> m = 10 \<or> m = 11 \<or> m = 12" by arith
  then show ?thesis by (auto simp: days_in_month_def)
qed

lemma valid_datetime_bounds:
  assumes "valid_datetime d"
  shows "year d < 10 ^ 4" "month d < 10 ^ 2" "day d < 10 ^ 2" "hour d < 10 ^ 2"
    "minute d < 10 ^ 2" "second d < 10 ^ 2" "microsecond d < 10 ^ 6"
  using assms days_in_month_le [of "month d" "year d"]
  by (auto simp: valid_datetime_def)

lemma parse_iso_isoformat: "valid_datetime d \<Longrightarrow> parse_iso (isoformat d) = Some d"
  using valid_datetime_bounds [of d]
  by (cases "microsecond d = 0")
     (simp_all add: parse_iso_def isoformat_def nth_append parse_digits_zpad)

lemma fromisoformat_isoformat:
  "valid_datetime d \<Longrightarrow> fromisoformat (JStr (isoformat d)) = Inr d"
  by (simp add: parse_iso_isoformat)

section \<open>The handlers keep the stores well formed\<close>

lemma ebind_Inr [simp]: "ebind (Inr x) f = f x"
  by (simp add: ebind_def)

lemma ebind_Inl [simp]: "ebind (Inl e) f = Inl e"
  by (simp add: ebind_def)

lemma ebind_eq_Inr: "ebind m f = Inr y \<longleftrightarrow> (\<exists>x. m = Inr x \<and> f x = Inr y)"
  by (cases m) simp_all

lemma py_get_eq_Inr: "py_get x k d = Inr v \<longleftrightarrow> (\<exists>al. x = JDict al \<and> v = (case map_of al k of Some w \<Rightarrow> w | None \<Rightarrow> d))"
  by (cases x) auto

lemma list_all_update:
  "list_all P al \<Longrightarrow> P (k, v) \<Longrightarrow> list_all P (AList.update k v al)"
  by (induction al) auto

lemma list_all_delete: "list_all P al \<Longrightarrow> list_all P (AList.delete k al)"
  by (simp add: AList.delete_eq list_all_iff)

lemma map_of_list_all: "list_all P al \<Longrightarrow> map_of al k = Some v \<Longrightarrow> P (k, v)"
  by (auto simp: list_all_iff dest: map_of_SomeD)

lemma heartbeat_status_wf:
  "valid_datetime now \<Longrightarrow> heartbeat_status now data la = Inr st \<Longrightarrow> wf_status st"
  by (auto simp: heartbeat_status_def ebind_eq_Inr py_get_eq_Inr wf_status_def parse_iso_isoformat)

lemma wf_heartbeat:
  assumes "wf_state s" "valid_datetime (clock 0)"
  shows "wf_state (snd (device_heartbeat clock device_id body s))"
  using assms
  by (auto simp: device_heartbeat_def Let_def wf_state_def distinct_update
      ebind_eq_Inr split: sum.splits intro!: list_all_update dest: heartbeat_status_wf)

lemma wf_commands: "wf_state s \<Longrightarrow> wf_state (snd (get_pending_commands clock device_id s))"
  by (simp add: get_pending_commands_def wf_state_def distinct_update)

lemma wf_add_command: "wf_state s \<Longrightarrow> wf_state (add_command t1 t2 device_id action params s)"
  by (simp add: add_command_def Let_def wf_state_def distinct_update)

lemma wf_emergency_loop: "wf_state s \<Longrightarrow> wf_state (emergency_loop clock i ids s)"
  by (induction ids arbitrary: i s) (simp_all add: wf_add_command)

lemma wf_cleanup_loop: "wf_state s \<Longrightarrow> wf_state (snd (cleanup_loop now items s))"
proof (induction items arbitrary: s)
  case Nil then show ?case by simp
next
  case (Cons p items)
  obtain k st where p: "p = (k, st)" by (cases p)
  have del: "wf_state (s\<lparr>device_statuses := AList.delete k (device_statuses s)\<rparr>)"
    using Cons.prems by (simp add: wf_state_def distinct_delete list_all_delete)
  show ?case
    using Cons.IH [OF del] Cons.IH [OF Cons.prems] Cons.prems
    by (simp add: p Let_def split: sum.splits)
qed

lemma activity_entry_wf:
  "activity_entry now activity = Inr e \<Longrightarrow> wf_entry e"
  apply (auto simp: activity_entry_def ebind_eq_Inr py_get_eq_Inr wf_entry_def preview_ok_def)
  subgoal for al p by (cases "case map_of al ''content_preview'' of None \<Rightarrow> JStr [] | Some w \<Rightarrow> w") auto
  done

lemma wf_log_take: "wf_entry e \<Longrightarrow> wf_log l \<Longrightarrow> wf_log (take 50 (e # l))"
  by (auto simp: wf_log_def list_all_iff dest: in_set_takeD)

lemma wf_status_setitem:
  "wf_status st \<Longrightarrow> py_setitem st ''last_activity'' v = Inr st' \<Longrightarrow> wf_status st'"
  by (cases st) (auto simp: wf_status_def update_conv')

lemma wf_activity:
  assumes wf: "wf_state s"
  shows "wf_state (snd (log_device_activity clock device_id body s))"
proof -
  define s1 where "s1 = (if map_of (recent_activities s) device_id = None
                then s\<lparr>recent_activities := AList.update device_id [] (recent_activities s)\<rparr>
                else s)"
  have wf1: "wf_state s1"
    using wf by (auto simp: s1_def wf_state_def distinct_update wf_log_def intro!: list_all_update)
  show ?thesis
  proof (cases "activity_entry (clock 0) (py_or body (JDict []))")
    case (Inl e)
    then show ?thesis using wf1 by (simp add: log_device_activity_def Let_def s1_def)
  next
    case (Inr entry)
    define entries where "entries = (case map_of (recent_activities s1) device_id of
                               Some l \<Rightarrow> l | None \<Rightarrow> [])"
    define s2 where "s2 = s1\<lparr>recent_activities :=
                             AList.update device_id (take 50 (entry # entries)) (recent_activities s1)\<rparr>"
    have "wf_log entries"
      using wf1 map_of_list_all [of "\<lambda>p. wf_log (snd p)" "recent_activities s1" device_id]
      by (auto simp: entries_def wf_state_def wf_log_def split: option.splits)
    then have "wf_log (take 50 (entry # entries))"
      using activity_entry_wf [OF Inr] by (rule wf_log_take [rotated])
    then have wf2: "wf_state s2"
      using wf1 by (auto simp: s2_def wf_state_def distinct_update intro!: list_all_update)
    have res: "snd (log_device_activity clock device_id body s) =
      (case map_of (device_statuses s2) device_id of
                   None \<Rightarrow> s2
                 | Some status \<Rightarrow>
                     (case ebind (py_getitem entry ''timestamp'')
                             (py_setitem status ''last_activity'') of
                        Inl e \<Rightarrow> s2
                      | Inr status' \<Rightarrow>
                           s2\<lparr>device_statuses :=
                                 AList.update device_id status' (device_statuses s2)\<rparr>))"
      using Inr
      by (simp add: log_device_activity_def Let_def s1_def entries_def s2_def
          split: option.splits sum.splits)
    show ?thesis
    proof (cases "map_of (device_statuses s2) device_id")
      case None
      then show ?thesis using wf2 by (simp add: res)
    next
      case (Some status)
      have "wf_status status"
        using wf2 map_of_list_all [of "\<lambda>p. wf_status (snd p)" "device_statuses s2" device_id status] Some
        by (simp add: wf_state_def)
      then show ?thesis
        using wf2 Some
        by (auto simp: res wf_state_def distinct_update ebind_eq_Inr split: sum.splits
            intro!: list_all_update dest: wf_status_setitem)
    qed
  qed
qed

lemma wf_cleanup: "wf_state s \<Longrightarrow> wf_state (snd (cleanup_offline_devices now s))"
  by (simp add: cleanup_offline_devices_def wf_cleanup_loop)

lemma wf_status_h: "wf_state s \<Longrightarrow> wf_state (snd (get_all_status clock s))"
  using wf_cleanup [of s "clock 0"]
  by (auto simp: get_all_status_def split: prod.splits sum.splits)

lemma wf_analytics: "wf_state s \<Longrightarrow> wf_state (snd (get_analytics clock s))"
  using wf_cleanup [of s "clock 0"]
  by (auto simp: get_analytics_def split: prod.splits sum.splits)

lemma wf_init: "wf_state init_state"
  by (simp add: wf_state_def init_state_def)

lemma wf_step: "step s s' \<Longrightarrow> wf_state s \<Longrightarrow> wf_state s'"
proof (induction rule: step.induct)
  case (heartbeat clock s device_id request_json)
  then show ?case by (simp add: wf_heartbeat valid_clock_def)
next
  case (emergency clock s)
  then show ?case by (simp add: emergency_stop_all_def wf_emergency_loop)
qed (simp_all add: wf_activity wf_commands wf_add_command stop_device_def restart_device_def
      wf_status_h wf_analytics)

lemma reachable_wf: "reachable s \<Longrightarrow> wf_state s"
  unfolding reachable_def
  by (induction rule: rtranclp_induct) (auto intro: wf_init wf_step)

section \<open>Sample runs\<close>

lemma reachable_start: "reachable init_state"
  by (simp add: reachable_def)

lemma reachable_step: "reachable s \<Longrightarrow> step s s' \<Longrightarrow> reachable s'"
  by (auto simp: reachable_def)

lemma valid_clock_const: "valid_datetime t \<Longrightarrow> valid_clock (\<lambda>n. t)"
  by (simp add: valid_clock_def)

lemma valid_samples [simp]: "valid_datetime t_7h00" "valid_datetime t_7h02" "valid_datetime t_7h12"
  by (simp_all add: valid_datetime_def t_7h00_def t_7h02_def t_7h12_def days_in_month_def)

lemma sample_fields [simp]:
  "minute t_7h00 = 0" "microsecond t_7h00 = 0" "second t_7h00 = 0"
  by (simp_all add: t_7h00_def)

lemma sample_ages [simp]:
  "to_micros t_7h12 - to_micros t_7h00 = 720000000"
  "to_micros t_7h12 - to_micros t_7h02 = 600000000"
  by (simp_all add: to_micros_def toordinal_def t_7h12_def t_7h02_def)

lemma two_devices_eq:
  "two_devices =
     \<lparr>device_statuses =
        [(''bot_a'', JDict
           [(''status'', JStr ''online''), (''last_seen'', JStr (isoformat t_7h00)),
            (''uptime_hours'', JInt 0), (''cpu_usage'', JInt 0), (''actions_today'', JDict []),
            (''next_scheduled'', JNull), (''content_version'', JStr ''unknown''),
            (''twitter_logged_in'', JBool False), (''last_activity'', JStr ''Never'')]),
         (''bot_b'', JDict
           [(''status'', JStr ''online''), (''last_seen'', JStr (isoformat t_7h02)),
            (''uptime_hours'', JInt 0), (''cpu_usage'', JInt 0), (''actions_today'', JDict []),
            (''next_scheduled'', JNull), (''content_version'', JStr ''unknown''),
            (''twitter_logged_in'', JBool False), (''last_activity'', JStr ''Never'')])],
      command_queues = [], recent_activities = []\<rparr>"
  by (simp add: two_devices_def device_heartbeat_def py_or_def heartbeat_last_activity_def
      heartbeat_status_def init_state_def jsonify_def Let_def)

lemma reachable_two_devices: "reachable two_devices"
  unfolding two_devices_def
  by (intro reachable_step [OF _ step.heartbeat] reachable_start valid_clock_const valid_samples)

lemma older_isoformat [simp]:
  "valid_datetime t \<Longrightarrow>
   older_than_10_minutes now (JDict ((''status'', v) # (''last_seen'', JStr (isoformat t)) # rest)) =
     (to_micros now - to_micros t > 600000000)"
  by (simp add: older_than_10_minutes_def parse_iso_isoformat)

lemma zpad_numeral: "zpad (numeral k) n = zpad (pred_numeral k) (n div 10) @ [digit_char (n mod 10)]"
proof -
  have e: "numeral k = Suc (pred_numeral k)" by (rule numeral_eq_Suc)
  show ?thesis using zpad.simps(2) [of "pred_numeral k" n] by (simp only: e)
qed

lemma zpad_1: "zpad 1 n = [digit_char (n mod 10)]"
  using zpad.simps(2) [of 0 n] by simp

lemma digit_chars:
  "digit_char 0 = CHR ''0''" "digit_char 1 = CHR ''1''" "digit_char 2 = CHR ''2''"
  "digit_char 3 = CHR ''3''" "digit_char 4 = CHR ''4''" "digit_char 5 = CHR ''5''"
  "digit_char 6 = CHR ''6''" "digit_char 7 = CHR ''7''" "digit_char 8 = CHR ''8''"
  "digit_char 9 = CHR ''9''"
  by (simp_all add: digit_char_def char_of_def bit_0 bit_Suc_0_iff)

lemma digit_char_Suc0: "digit_char (Suc 0) = CHR ''1''"
  using digit_chars(2) by simp

lemma iso_7h00: "isoformat t_7h00 = ''2026-11-04T07:00:00''"
  by (simp add: isoformat_def t_7h00_def zpad_numeral zpad_1 digit_chars digit_char_Suc0)

section \<open>A heartbeat registers the device\<close>

lemma wf_log_of: "wf_state s \<Longrightarrow> wf_log (log_of s device_id)"
  using map_of_list_all [of "\<lambda>p. wf_log (snd p)" "recent_activities s" device_id]
  by (auto simp: wf_state_def log_of_def wf_log_def split: option.splits)

lemma heartbeat_last_activity_wf:
  assumes "wf_state s"
  shows "\<exists>la. heartbeat_last_activity s device_id = Inr la \<and>
           (case log_of s device_id of [] \<Rightarrow> la = JStr ''Never''
            | e # _ \<Rightarrow> py_getitem e ''timestamp'' = Inr la)"
proof (cases "log_of s device_id")
  case Nil
  then show ?thesis
    by (auto simp: heartbeat_last_activity_def log_of_def split: option.splits list.splits)
next
  case (Cons e rest)
  then have "wf_entry e" using wf_log_of [OF assms, of device_id] by (simp add: wf_log_def)
  then obtain ts where "py_getitem e ''timestamp'' = Inr ts"
    by (auto simp: wf_entry_def split: sum.splits)
  then show ?thesis using Cons
    by (auto simp: heartbeat_last_activity_def log_of_def split: option.splits list.splits)
qed

lemma heartbeat_status_report:
  "heartbeat_status now (JDict report) la = Inr (status_of_report now report la)"
  by (simp add: heartbeat_status_def status_of_report_def report_field_def)

text \<open>
  C6. In every reachable state, a heartbeat of device \<open>D\<close> whose body is a report (a JSON
  object, or no body at all) is answered 200 and stores for \<open>D\<close> a status with
  \<^verbatim>\<open>status = 'online'\<close>, with the fields of the report and the defaults
  \<^verbatim>\<open>uptime_hours = 0\<close>, \<^verbatim>\<open>cpu_usage = 0\<close>, \<^verbatim>\<open>actions_today = {}\<close>,
  \<^verbatim>\<open>content_version = 'unknown'\<close>, \<^verbatim>\<open>twitter_logged_in = False\<close> for the missing ones, and
  with a \<^verbatim>\<open>last_seen\<close> that reads back as the clock reading the handler took, which is not
  before the call. The stored \<^verbatim>\<open>last_activity\<close> is the timestamp of entry 0 of the
  activity log of \<open>D\<close>, or \<^verbatim>\<open>'Never'\<close> when that log is empty or absent.
\<close>

theorem heartbeat_registers_device:
  assumes reach: "reachable s"
    and now: "valid_datetime (clock 0)"
    and report: "request_json = JDict report \<or> (\<not> truthy request_json \<and> report = [])"
  shows "\<exists>last_activity.
           device_heartbeat clock device_id request_json s =
             ((JDict [(''success'', JBool True), (''timestamp'', JStr (isoformat (clock 1)))], 200),
              s\<lparr>device_statuses :=
                  AList.update device_id (status_of_report (clock 0) report last_activity)
                    (device_statuses s)\<rparr>) \<and>
           map_of (device_statuses (snd (device_heartbeat clock device_id request_json s))) device_id =
             Some (status_of_report (clock 0) report last_activity) \<and>
           py_getitem (status_of_report (clock 0) report last_activity) ''status'' = Inr (JStr ''online'') \<and>
           ebind (py_getitem (status_of_report (clock 0) report last_activity) ''last_seen'')
             fromisoformat = Inr (clock 0) \<and>
           (case log_of s device_id of
              [] \<Rightarrow> last_activity = JStr ''Never''
            | entry # _ \<Rightarrow> py_getitem entry ''timestamp'' = Inr last_activity)"
proof -
  have wf: "wf_state s" using reach by (rule reachable_wf)
  obtain la where la: "heartbeat_last_activity s device_id = Inr la"
    "case log_of s device_id of [] \<Rightarrow> la = JStr ''Never''
     | e # _ \<Rightarrow> py_getitem e ''timestamp'' = Inr la"
    using heartbeat_last_activity_wf [OF wf] by blast
  have data: "py_or request_json (JDict []) = JDict report"
    using report by (auto simp: py_or_def)
  have run: "device_heartbeat clock device_id request_json s =
             ((JDict [(''success'', JBool True), (''timestamp'', JStr (isoformat (clock 1)))], 200),
              s\<lparr>device_statuses :=
                  AList.update device_id (status_of_report (clock 0) report la)
                    (device_statuses s)\<rparr>)"
    by (simp add: device_heartbeat_def data la(1) heartbeat_status_report jsonify_def)
  have seen: "ebind (py_getitem (status_of_report (clock 0) report la) ''last_seen'')
             fromisoformat = Inr (clock 0)"
    using now by (simp add: status_of_report_def parse_iso_isoformat)
  have online: "py_getitem (status_of_report (clock 0) report la) ''status'' = Inr (JStr ''online'')"
    by (simp add: status_of_report_def)
  show ?thesis
    using run seen online la(2) by (intro exI [of _ la]) (simp add: map_of_update_same)
qed


lemma active_device_eq:
  "active_device =
     \<lparr>device_statuses = [], command_queues = [],
      recent_activities =
        [(''bot_a'',
          [JDict [(''timestamp'', JStr (isoformat t_7h00)), (''action'', JStr ''tweet''),
                  (''success'', JBool False), (''details'', JStr []),
                  (''content_preview'', JStr [])]])]\<rparr>"
  by (simp add: active_device_def log_device_activity_def py_or_def activity_entry_def
      init_state_def jsonify_def Let_def)

lemma reachable_active_device: "reachable active_device"
  unfolding active_device_def
  by (intro reachable_step [OF _ step.activity] reachable_start valid_clock_const valid_samples)

theorem heartbeat_registers_device_witness:
  "reachable active_device \<and> valid_datetime t_7h02 \<and>
   map_of (device_statuses
      (snd (device_heartbeat (\<lambda>n. t_7h02) ''bot_a'' (JDict [(''cpu_usage'', JInt 7)]) active_device)))
     ''bot_a'' =
     Some (JDict
       [(''status'', JStr ''online''),
        (''last_seen'', JStr (isoformat t_7h02)),
        (''uptime_hours'', JInt 0),
        (''cpu_usage'', JInt 7),
        (''actions_today'', JDict []),
        (''next_scheduled'', JNull),
        (''content_version'', JStr ''unknown''),
        (''twitter_logged_in'', JBool False),
        (''last_activity'', JStr (isoformat t_7h00))])"
  using reachable_active_device
    heartbeat_registers_device [OF reachable_active_device, of "\<lambda>n. t_7h02"
      "JDict [(''cpu_usage'', JInt 7)]" "[(''cpu_usage'', JInt 7)]" "''bot_a''"]
  by (auto simp: active_device_eq log_of_def status_of_report_def report_field_def)

section \<open>The activity log\<close>

lemma log_activity_same:
  "log_of (snd (log_device_activity clock device_id request_json s)) device_id =
     (case entry_of (clock, request_json) of
        Inr entry \<Rightarrow> take 50 (entry # log_of s device_id)
      | Inl _ \<Rightarrow> log_of s device_id)"
  by (auto simp: log_device_activity_def entry_of_def log_of_def Let_def map_of_update_same
      split: sum.splits option.splits)

lemma log_activity_other:
  "other \<noteq> device_id \<Longrightarrow>
   log_of (snd (log_device_activity clock device_id request_json s)) other = log_of s other"
  by (auto simp: log_device_activity_def log_of_def Let_def map_of_update_other
      split: sum.splits option.splits)

lemma take_append_take: "take n (xs @ take n ys) = take n (xs @ ys)"
  by (simp add: min_def)

lemma log_many_log:
  "map entry_of requests = map Inr entries \<Longrightarrow> length (log_of s device_id) \<le> 50 \<Longrightarrow>
   log_of (log_many device_id requests s) device_id = take 50 (rev entries @ log_of s device_id)"
proof (induction requests arbitrary: s entries)
  case Nil
  then show ?case by simp
next
  case (Cons r requests)
  obtain clock body where r: "r = (clock, body)" by (cases r)
  obtain e es where es: "entries = e # es" "entry_of (clock, body) = Inr e"
    "map entry_of requests = map Inr es"
    using Cons.prems by (cases entries) (auto simp: r)
  have "log_of (log_many device_id (r # requests) s) device_id =
        take 50 (rev es @ take 50 (e # log_of s device_id))"
    using Cons.IH [OF es(3), of "snd (log_device_activity clock device_id body s)"]
    by (simp add: r log_activity_same es(2))
  also have "\<dots> = take 50 (rev es @ e # log_of s device_id)"
    by (rule take_append_take)
  finally show ?case by (simp add: es(1))
qed

lemma entry_preview_ok: "entry_of request = Inr entry \<Longrightarrow> preview_ok entry"
  using activity_entry_wf [of "fst request 0" "py_or (snd request) (JDict [])" entry]
  by (simp add: entry_of_def wf_entry_def)


lemma reachable_log_many:
  "reachable s \<Longrightarrow> list_all (\<lambda>r. valid_clock (fst r)) requests \<Longrightarrow>
   reachable (log_many device_id requests s)"
proof (induction requests arbitrary: s)
  case Nil
  then show ?case by simp
next
  case (Cons r requests)
  obtain clock body where r: "r = (clock, body)" by (cases r)
  have "reachable (snd (log_device_activity clock device_id body s))"
    using Cons.prems by (intro reachable_step [OF _ step.activity]) (simp_all add: r)
  then show ?case using Cons by (simp add: r)
qed

text \<open>
  C7. The activity log of a device never holds more than 50 entries, and every entry's
  \<^verbatim>\<open>content_preview\<close> has at most 100 items. The entry a report is logged as carries the
  first 100 characters of the reported \<^verbatim>\<open>content_preview\<close> (the first 100 items when it is
  a list). A report that builds an entry puts it at index 0 and keeps the 49 entries that
  were most recent before it; a report that raises leaves the log as it was; no other
  device's log changes. So a run of reports leaves the last 50 entries, most recent
  first, and after 51 reports on an empty log the entry of the first report is gone.
\<close>

theorem activity_log_is_bounded_and_recent_first:
  "(reachable s \<longrightarrow>
      length (log_of s device_id) \<le> 50 \<and> list_all preview_ok (log_of s device_id)) \<and>
   (\<forall>entry. entry_of (clock, request_json) = Inr entry \<longrightarrow>
      log_of (snd (log_device_activity clock device_id request_json s)) device_id =
        take 50 (entry # log_of s device_id) \<and>
      preview_ok entry) \<and>
   (\<forall>report p.
      py_or request_json (JDict []) = JDict report \<and>
      report_field report ''content_preview'' (JStr []) = JStr p \<longrightarrow>
        entry_of (clock, request_json) =
          Inr (entry_of_report (clock 0) report (JStr (take 100 p)))) \<and>
   (\<forall>report p.
      py_or request_json (JDict []) = JDict report \<and>
      report_field report ''content_preview'' (JStr []) = JList p \<longrightarrow>
        entry_of (clock, request_json) =
          Inr (entry_of_report (clock 0) report (JList (take 100 p)))) \<and>
   (\<forall>e. entry_of (clock, request_json) = Inl e \<longrightarrow>
      log_of (snd (log_device_activity clock device_id request_json s)) device_id =
        log_of s device_id) \<and>
   (\<forall>other. other \<noteq> device_id \<longrightarrow>
      log_of (snd (log_device_activity clock device_id request_json s)) other =
        log_of s other) \<and>
   (map entry_of requests = map Inr entries \<and> length (log_of s device_id) \<le> 50 \<longrightarrow>
      log_of (log_many device_id requests s) device_id =
        take 50 (rev entries @ log_of s device_id)) \<and>
   (map entry_of requests = map Inr entries \<and> length entries = 51 \<and>
    log_of s device_id = [] \<longrightarrow>
      log_of (log_many device_id requests s) device_id = rev (tl entries) \<and>
      (hd entries \<notin> set (tl entries) \<longrightarrow>
         hd entries \<notin> set (log_of (log_many device_id requests s) device_id)))"
proof -
  have bounded: "length (log_of s device_id) \<le> 50 \<and> list_all preview_ok (log_of s device_id)"
    if "reachable s"
    using wf_log_of [OF reachable_wf [OF that], of device_id]
    by (simp add: wf_log_def wf_entry_def list_all_iff)
  have fifty_one: "log_of (log_many device_id requests s) device_id = rev (tl entries)"
    if "map entry_of requests = map Inr entries" "length entries = 51" "log_of s device_id = []"
  proof -
    have "take 50 (rev entries) = rev (drop 1 entries)"
      using that(2) by (simp add: take_rev)
    then show ?thesis
      using log_many_log [OF that(1), of s device_id] that(3) by (simp add: drop_Suc)
  qed
  have built: "entry_of (clock, request_json) = Inr (entry_of_report (clock 0) report v)"
    if "py_or request_json (JDict []) = JDict report"
      "py_slice100 (report_field report ''content_preview'' (JStr [])) = Inr v" for report v
    using that
    by (simp add: entry_of_def activity_entry_def entry_of_report_def report_field_def)
  have str: "entry_of (clock, request_json) =
          Inr (entry_of_report (clock 0) report (JStr (take 100 p)))"
    if "py_or request_json (JDict []) = JDict report"
      "report_field report ''content_preview'' (JStr []) = JStr p" for report p
    using built [OF that(1), of "JStr (take 100 p)"] that(2) by simp
  have lst: "entry_of (clock, request_json) =
          Inr (entry_of_report (clock 0) report (JList (take 100 p)))"
    if "py_or request_json (JDict []) = JDict report"
      "report_field report ''content_preview'' (JStr []) = JList p" for report p
    using built [OF that(1), of "JList (take 100 p)"] that(2) by simp
  have logs: "(\<forall>entry. entry_of (clock, request_json) = Inr entry \<longrightarrow>
      log_of (snd (log_device_activity clock device_id request_json s)) device_id =
        take 50 (entry # log_of s device_id) \<and>
      preview_ok entry) \<and>
   (\<forall>e. entry_of (clock, request_json) = Inl e \<longrightarrow>
      log_of (snd (log_device_activity clock device_id request_json s)) device_id =
        log_of s device_id) \<and>
   (\<forall>other. other \<noteq> device_id \<longrightarrow>
      log_of (snd (log_device_activity clock device_id request_json s)) other =
        log_of s other)"
    by (auto simp: log_activity_same log_activity_other dest: entry_preview_ok)
  show ?thesis
    using bounded fifty_one str lst logs
    by (simp add: log_many_log)
qed

lemma numbered_entries:
  "map entry_of (map numbered_request [0..<51]) = map Inr (map numbered_entry [0..<51])"
  by (simp add: entry_of_def numbered_request_def numbered_entry_def py_or_def
      activity_entry_def)

lemma upt_0_51: "[0..<51] = 0 # [1..<51]"
  by (simp add: upt_conv_Cons)

theorem activity_log_is_bounded_and_recent_first_witness:
  "reachable (log_many ''bot_a'' (map numbered_request [0..<51]) init_state) \<and>
   map entry_of (map numbered_request [0..<51]) = map Inr (map numbered_entry [0..<51]) \<and>
   length (map numbered_entry [0..<51]) = 51 \<and>
   log_of init_state ''bot_a'' = [] \<and>
   entry_of (numbered_request 51) = Inr (numbered_entry 51) \<and>
   log_of (log_many ''bot_a'' (map numbered_request [0..<51]) init_state) ''bot_a'' =
     rev (map numbered_entry [1..<51]) \<and>
   length (log_of (log_many ''bot_a'' (map numbered_request [0..<51]) init_state) ''bot_a'') \<le> 50 \<and>
   numbered_entry 0 \<notin>
     set (log_of (log_many ''bot_a'' (map numbered_request [0..<51]) init_state) ''bot_a'') \<and>
   preview_ok (numbered_entry 51) \<and>
   entry_of (\<lambda>n. t_7h00, JDict long_report) =
     Inr (JDict
       [(''timestamp'', JStr (isoformat t_7h00)),
        (''action'', JStr ''tweet''),
        (''success'', JBool False),
        (''details'', JStr []),
        (''content_preview'', JStr (replicate 100 CHR ''x''))])"
proof -
  have long: "py_or (JDict long_report) (JDict []) = JDict long_report \<and>
    report_field long_report ''content_preview'' (JStr []) = JStr (replicate 150 CHR ''x'')"
    by (simp add: py_or_def long_report_def report_field_def)
  have cut: "entry_of_report t_7h00 long_report (JStr (take 100 (replicate 150 CHR ''x''))) =
     JDict
       [(''timestamp'', JStr (isoformat t_7h00)),
        (''action'', JStr ''tweet''),
        (''success'', JBool False),
        (''details'', JStr []),
        (''content_preview'', JStr (replicate 100 CHR ''x''))]"
    by (simp add: entry_of_report_def long_report_def report_field_def)
  have r: "reachable (log_many ''bot_a'' (map numbered_request [0..<51]) init_state)"
    by (intro reachable_log_many reachable_start)
       (simp add: list_all_iff numbered_request_def valid_clock_const)
  have e: "log_of init_state ''bot_a'' = []"
    by (simp add: log_of_def init_state_def)
  have one: "entry_of (numbered_request 51) = Inr (numbered_entry 51)"
    by (simp add: entry_of_def numbered_request_def numbered_entry_def py_or_def
      activity_entry_def)
  have d: "hd (map numbered_entry [0..<51]) \<notin> set (tl (map numbered_entry [0..<51]))"
    by (auto simp: upt_0_51 numbered_entry_def)
  note long_case = activity_log_is_bounded_and_recent_first
      [of init_state "''bot_a''" "\<lambda>n. t_7h00" "JDict long_report",
       THEN conjunct2, THEN conjunct2, THEN conjunct1, rule_format, OF long]
  have trunc: "entry_of (\<lambda>n. t_7h00, JDict long_report) =
     Inr (JDict
       [(''timestamp'', JStr (isoformat t_7h00)),
        (''action'', JStr ''tweet''),
        (''success'', JBool False),
        (''details'', JStr []),
        (''content_preview'', JStr (replicate 100 CHR ''x''))])"
    using long_case by (simp only: cut)
  have one': "entry_of (fst (numbered_request 51), snd (numbered_request 51)) =
      Inr (numbered_entry 51)"
    using one by simp
  note bounded = activity_log_is_bounded_and_recent_first
      [of "log_many ''bot_a'' (map numbered_request [0..<51]) init_state" "''bot_a''"
          "fst (numbered_request 51)" "snd (numbered_request 51)",
       THEN conjunct1, rule_format, OF r]
  note inserted = activity_log_is_bounded_and_recent_first
      [of "log_many ''bot_a'' (map numbered_request [0..<51]) init_state" "''bot_a''"
          "fst (numbered_request 51)" "snd (numbered_request 51)",
       THEN conjunct2, THEN conjunct1, rule_format, OF one']
  have hyp: "map entry_of (map numbered_request [0..<51]) = map Inr (map numbered_entry [0..<51]) \<and>
    length (map numbered_entry [0..<51]) = 51 \<and> log_of init_state ''bot_a'' = []"
    using numbered_entries e by simp
  note fifty_one = activity_log_is_bounded_and_recent_first
      [of init_state "''bot_a''" "fst (numbered_request 51)" "snd (numbered_request 51)"
          "map numbered_request [0..<51]" "map numbered_entry [0..<51]",
       THEN conjunct2, THEN conjunct2, THEN conjunct2, THEN conjunct2, THEN conjunct2,
       THEN conjunct2, THEN conjunct2, rule_format, OF hyp]
  have gone: "log_of (log_many ''bot_a'' (map numbered_request [0..<51]) init_state) ''bot_a'' =
     rev (map numbered_entry [1..<51]) \<and>
     numbered_entry 0 \<notin>
       set (log_of (log_many ''bot_a'' (map numbered_request [0..<51]) init_state) ''bot_a'')"
    using fifty_one d by (simp add: upt_0_51)
  have d2: "numbered_entry 0 \<notin> numbered_entry ` {Suc 0..<51}"
    by (auto simp: numbered_entry_def)
  show ?thesis
    using r hyp one bounded inserted gone trunc d2 by simp
qed

section \<open>The emergency broadcast\<close>

lemma days_before_november: "days_before_month 2026 11 = 304"
  by (simp add: days_before_month_def days_in_month_def is_leap_def upt_rec)

lemma timestamp_7h00: "py_int (timestamp t_7h00) = 1793775600"
  by (simp add: py_int_def timestamp_def to_micros_def toordinal_def days_before_year_def
      days_before_november t_7h00_def)

lemma show_timestamp_7h00: "show_int 1793775600 = ''1793775600''"
  by (simp add: show_int_def show_nat.simps digit_chars digit_char_Suc0)

lemma queue_add_command:
  "queue_of (add_command t_id t_stamp device_id action params s) other =
     (if other = device_id
      then queue_of s device_id @
        [JDict [(''command_id'', JStr (action @ ''_'' @ show_int (py_int (timestamp t_id)))),
                (''action'', JStr action),
                (''parameters'', py_or params (JDict [])),
                (''timestamp'', JStr (isoformat t_stamp))]]
      else queue_of s other)"
  by (auto simp: add_command_def queue_of_def Let_def map_of_update_same map_of_update_other
      split: option.splits)

lemma add_command_frame:
  "device_statuses (add_command t_id t_stamp device_id action params s) = device_statuses s"
  "recent_activities (add_command t_id t_stamp device_id action params s) = recent_activities s"
  by (simp_all add: add_command_def Let_def)

lemma emergency_loop_frame:
  "device_statuses (emergency_loop clock i ids s) = device_statuses s"
  "recent_activities (emergency_loop clock i ids s) = recent_activities s"
  by (induction ids arbitrary: i s) (simp_all add: add_command_frame)

lemma emergency_loop_other:
  "other \<notin> set ids \<Longrightarrow> queue_of (emergency_loop clock i ids s) other = queue_of s other"
  by (induction ids arbitrary: i s) (auto simp: queue_add_command)

lemma emergency_loop_queue:
  "distinct ids \<Longrightarrow> j < length ids \<Longrightarrow>
   queue_of (emergency_loop clock i ids s) (ids ! j) =
     queue_of s (ids ! j) @ [emergency_command clock (i + j)]"
proof (induction ids arbitrary: i j s)
  case Nil
  then show ?case by simp
next
  case (Cons k ks)
  show ?case
  proof (cases j)
    case 0
    then show ?thesis
      using Cons.prems
      by (simp add: emergency_loop_other queue_add_command emergency_command_def py_or_def)
  next
    case (Suc j')
    then have "ks ! j' \<noteq> k" using Cons.prems by auto
    then show ?thesis
      using Cons.prems Suc Cons.IH [of j' "Suc i"]
      by (simp add: queue_add_command)
  qed
qed

lemma heartbeat_queue_of:
  "queue_of (snd (device_heartbeat clock device_id request_json s)) other = queue_of s other"
  by (simp add: device_heartbeat_def queue_of_def Let_def split: sum.splits)

lemma three_devices_eq:
  "three_devices =
     \<lparr>device_statuses =
        [(''bot_a'', status_of_report t_7h00 [] (JStr ''Never'')),
         (''bot_b'', status_of_report t_7h00 [] (JStr ''Never'')),
         (''bot_c'', status_of_report t_7h00 [] (JStr ''Never''))],
      command_queues = [], recent_activities = []\<rparr>"
  by (simp add: three_devices_def device_heartbeat_def py_or_def heartbeat_last_activity_def
      heartbeat_status_report init_state_def jsonify_def Let_def)

lemma reachable_three_devices: "reachable three_devices"
  unfolding three_devices_def
  by (intro reachable_step [OF _ step.heartbeat] reachable_start valid_clock_const valid_samples)

lemma prequeued_device_eq:
  "prequeued_device =
     \<lparr>device_statuses =
        [(''bot_a'', status_of_report t_7h00 [] (JStr ''Never'')),
         (''bot_b'', status_of_report t_7h00 [] (JStr ''Never'')),
         (''bot_c'', status_of_report t_7h00 [] (JStr ''Never''))],
      command_queues =
        [(''bot_d'',
          [JDict [(''command_id'', JStr ''stop_bot_1793775600''),
                  (''action'', JStr ''stop_bot''),
                  (''parameters'', JDict [(''reason'', JStr ''Manual stop from Control Room'')]),
                  (''timestamp'', JStr ''2026-11-04T07:00:00'')]])],
      recent_activities = []\<rparr>"
  by (simp add: prequeued_device_def stop_device_def add_command_def three_devices_eq Let_def
      timestamp_7h00 show_timestamp_7h00 iso_7h00 py_or_def)

lemma reachable_prequeued_device: "reachable prequeued_device"
  unfolding prequeued_device_def
  by (intro reachable_step [OF reachable_three_devices step.stop] valid_clock_const
      valid_samples)

lemma unix_era_7h00: "unix_era (\<lambda>n. t_7h00)"
  by (simp add: unix_era_def t_7h00_def)

text \<open>
  C1, as stated, fails on the code, in two ways. First, three devices are registered and the
  clock reads 7:00 throughout the broadcast, as it does when the loop runs within one
  second: each device gets one command, and the three commands carry the same
  \<^verbatim>\<open>command_id\<close>, \<^verbatim>\<open>emergency_stop_1793775600\<close>. Second, the operator has sent a stop
  command to \<^verbatim>\<open>bot_d\<close> before it ever registered: \<^verbatim>\<open>bot_d\<close> is not in the registry at the
  broadcast, it registers with a heartbeat at 7:02, and its queue then holds the stop
  command, so it is not empty.
\<close>

theorem emergency_stop_ids_counterexample:
  "reachable three_devices \<and>
   map fst (device_statuses three_devices) = [''bot_a'', ''bot_b'', ''bot_c''] \<and>
   queue_of (snd (emergency_stop_all (\<lambda>n. t_7h00) three_devices)) ''bot_a'' =
     [JDict [(''command_id'', JStr ''emergency_stop_1793775600''),
             (''action'', JStr ''emergency_stop''),
             (''parameters'', JDict [(''priority'', JStr ''critical'')]),
             (''timestamp'', JStr ''2026-11-04T07:00:00'')]] \<and>
   queue_of (snd (emergency_stop_all (\<lambda>n. t_7h00) three_devices)) ''bot_b'' =
     [JDict [(''command_id'', JStr ''emergency_stop_1793775600''),
             (''action'', JStr ''emergency_stop''),
             (''parameters'', JDict [(''priority'', JStr ''critical'')]),
             (''timestamp'', JStr ''2026-11-04T07:00:00'')]] \<and>
   queue_of (snd (emergency_stop_all (\<lambda>n. t_7h00) three_devices)) ''bot_c'' =
     [JDict [(''command_id'', JStr ''emergency_stop_1793775600''),
             (''action'', JStr ''emergency_stop''),
             (''parameters'', JDict [(''priority'', JStr ''critical'')]),
             (''timestamp'', JStr ''2026-11-04T07:00:00'')]] \<and>
   reachable prequeued_device \<and>
   map fst (device_statuses prequeued_device) = [''bot_a'', ''bot_b'', ''bot_c''] \<and>
   map fst (device_statuses
     (snd (device_heartbeat (\<lambda>n. t_7h02) ''bot_d'' JNull
       (snd (emergency_stop_all (\<lambda>n. t_7h00) prequeued_device))))) =
     [''bot_a'', ''bot_b'', ''bot_c'', ''bot_d''] \<and>
   queue_of
     (snd (device_heartbeat (\<lambda>n. t_7h02) ''bot_d'' JNull
       (snd (emergency_stop_all (\<lambda>n. t_7h00) prequeued_device)))) ''bot_d'' =
     [JDict [(''command_id'', JStr ''stop_bot_1793775600''),
             (''action'', JStr ''stop_bot''),
             (''parameters'', JDict [(''reason'', JStr ''Manual stop from Control Room'')]),
             (''timestamp'', JStr ''2026-11-04T07:00:00'')]]"
proof -
  have ids: "queue_of (snd (emergency_stop_all (\<lambda>n. t_7h00) three_devices)) other =
     (if other \<in> {''bot_a'', ''bot_b'', ''bot_c''}
      then [JDict [(''command_id'', JStr ''emergency_stop_1793775600''),
             (''action'', JStr ''emergency_stop''),
             (''parameters'', JDict [(''priority'', JStr ''critical'')]),
             (''timestamp'', JStr ''2026-11-04T07:00:00'')]]
      else [])" for other
    by (simp add: emergency_stop_all_def three_devices_eq queue_add_command
        queue_of_def [of "\<lparr>device_statuses = _, command_queues = _, recent_activities = _\<rparr>"]
        timestamp_7h00 show_timestamp_7h00 iso_7h00 py_or_def)
  have pre: "queue_of (snd (emergency_stop_all (\<lambda>n. t_7h00) prequeued_device)) ''bot_d'' =
     [JDict [(''command_id'', JStr ''stop_bot_1793775600''),
             (''action'', JStr ''stop_bot''),
             (''parameters'', JDict [(''reason'', JStr ''Manual stop from Control Room'')]),
             (''timestamp'', JStr ''2026-11-04T07:00:00'')]]"
    by (simp add: emergency_stop_all_def prequeued_device_eq queue_add_command
        queue_of_def [of "\<lparr>device_statuses = _, command_queues = _, recent_activities = _\<rparr>"])
  have registry: "device_statuses (snd (emergency_stop_all (\<lambda>n. t_7h00) prequeued_device)) =
      device_statuses prequeued_device"
    by (simp add: emergency_stop_all_def emergency_loop_frame)
  have recent: "recent_activities (snd (emergency_stop_all (\<lambda>n. t_7h00) prequeued_device)) = []"
    by (simp add: emergency_stop_all_def emergency_loop_frame)
       (simp add: prequeued_device_eq)
  have registered: "map fst (device_statuses
     (snd (device_heartbeat (\<lambda>n. t_7h02) ''bot_d'' JNull
       (snd (emergency_stop_all (\<lambda>n. t_7h00) prequeued_device))))) =
     [''bot_a'', ''bot_b'', ''bot_c'', ''bot_d'']"
    by (simp add: device_heartbeat_def py_or_def heartbeat_last_activity_def recent
        heartbeat_status_report jsonify_def Let_def registry)
       (simp add: prequeued_device_eq)
  show ?thesis
    using reachable_three_devices reachable_prequeued_device ids [of "''bot_a''"]
      ids [of "''bot_b''"] ids [of "''bot_c''"] pre registered
    by (simp add: heartbeat_queue_of) (simp add: three_devices_eq prequeued_device_eq)
qed

text \<open>
  C1, amended. In every reachable state, with the clock in the years 1970 to 2500,
  \<^verbatim>\<open>emergency_stop_all\<close> appends exactly one command to the queue of each registered device,
  in registry order. The \<^verbatim>\<open>command_id\<close> of the command of the \<open>i\<close>-th device is
  \<^verbatim>\<open>emergency_stop_\<close> followed by the whole seconds of the clock reading taken when it is
  enqueued, so commands enqueued within one second share their \<^verbatim>\<open>command_id\<close>. The queue
  of an id outside the registry is unchanged by the broadcast, and a heartbeat of that id
  after the broadcast leaves it unchanged as well: a device that is not registered at the
  broadcast gets nothing from it, and its queue is what it was before the broadcast. The
  registry and the logs are unchanged, and the response lists the registered ids.
\<close>

theorem emergency_stop_enqueues_one_command_each:
  assumes "reachable s" and "unix_era clock"
  shows "(\<forall>i < length (device_statuses s).
            queue_of (snd (emergency_stop_all clock s)) (map fst (device_statuses s) ! i) =
              queue_of s (map fst (device_statuses s) ! i) @ [emergency_command clock i] \<and>
            py_getitem (emergency_command clock i) ''command_id'' =
              Inr (JStr (''emergency_stop_'' @ show_int (py_int (timestamp (clock (2 * i))))))) \<and>
         (\<forall>other. other \<notin> fst ` set (device_statuses s) \<longrightarrow>
            queue_of (snd (emergency_stop_all clock s)) other = queue_of s other \<and>
            queue_of (snd (device_heartbeat clock' other request_json
                             (snd (emergency_stop_all clock s)))) other = queue_of s other) \<and>
         device_statuses (snd (emergency_stop_all clock s)) = device_statuses s \<and>
         recent_activities (snd (emergency_stop_all clock s)) = recent_activities s \<and>
         py_getitem (fst (fst (emergency_stop_all clock s))) ''devices'' =
           Inr (JList (map JStr (map fst (device_statuses s))))"
proof -
  have d: "distinct (map fst (device_statuses s))"
    using reachable_wf [OF assms(1)] by (simp add: wf_state_def)
  have run: "snd (emergency_stop_all clock s) =
               emergency_loop clock 0 (map fst (device_statuses s)) s"
    by (simp add: emergency_stop_all_def Let_def)
  have a: "queue_of (snd (emergency_stop_all clock s)) (map fst (device_statuses s) ! i) =
              queue_of s (map fst (device_statuses s) ! i) @ [emergency_command clock i]"
    if "i < length (device_statuses s)" for i
    using emergency_loop_queue [OF d, of i clock 0 s] that by (simp only: run length_map add_0)
  have b: "queue_of (snd (emergency_stop_all clock s)) other = queue_of s other"
    if "other \<notin> fst ` set (device_statuses s)" for other
    using emergency_loop_other [of other "map fst (device_statuses s)" clock 0 s] that
    by (simp add: run)
  have c: "py_getitem (emergency_command clock i) ''command_id'' =
              Inr (JStr (''emergency_stop_'' @ show_int (py_int (timestamp (clock (2 * i))))))" for i
    by (simp add: emergency_command_def)
  have e: "py_getitem (fst (fst (emergency_stop_all clock s))) ''devices'' =
           Inr (JList (map JStr (map fst (device_statuses s))))"
    by (simp add: emergency_stop_all_def Let_def jsonify_def)
  show ?thesis
    using a b c e by (simp add: heartbeat_queue_of) (simp add: run emergency_loop_frame)
qed



theorem emergency_stop_enqueues_one_command_each_witness:
  "reachable three_devices \<and> unix_era (\<lambda>n. t_7h00) \<and>
   queue_of (snd (emergency_stop_all (\<lambda>n. t_7h00) three_devices)) ''bot_a'' =
     [emergency_command (\<lambda>n. t_7h00) 0] \<and>
   queue_of (snd (emergency_stop_all (\<lambda>n. t_7h00) three_devices)) ''bot_c'' =
     [emergency_command (\<lambda>n. t_7h00) 2] \<and>
   queue_of (snd (emergency_stop_all (\<lambda>n. t_7h00) three_devices)) ''bot_d'' = [] \<and>
   queue_of (snd (device_heartbeat (\<lambda>n. t_7h02) ''bot_d'' JNull
               (snd (emergency_stop_all (\<lambda>n. t_7h00) three_devices)))) ''bot_d'' = []"
proof -
  note t = emergency_stop_enqueues_one_command_each
    [OF reachable_three_devices unix_era_7h00, of "\<lambda>n. t_7h02" JNull]
  have q: "queue_of three_devices other = []" for other
    by (simp add: three_devices_eq queue_of_def)
  have a: "queue_of (snd (emergency_stop_all (\<lambda>n. t_7h00) three_devices)) ''bot_a'' =
     [emergency_command (\<lambda>n. t_7h00) 0]"
    using t [THEN conjunct1, THEN spec, of 0] by (simp add: q) (simp add: three_devices_eq)
  have c: "queue_of (snd (emergency_stop_all (\<lambda>n. t_7h00) three_devices)) ''bot_c'' =
     [emergency_command (\<lambda>n. t_7h00) 2]"
    using t [THEN conjunct1, THEN spec, of 2] by (simp add: q) (simp add: three_devices_eq)
  have d: "queue_of (snd (emergency_stop_all (\<lambda>n. t_7h00) three_devices)) ''bot_d'' = [] \<and>
     queue_of (snd (device_heartbeat (\<lambda>n. t_7h02) ''bot_d'' JNull
               (snd (emergency_stop_all (\<lambda>n. t_7h00) three_devices)))) ''bot_d'' = []"
    using t [THEN conjunct2, THEN conjunct1, THEN spec, of "''bot_d''"]
    by (simp add: q) (simp add: three_devices_eq)
  show ?thesis using reachable_three_devices unix_era_7h00 a c d by simp
qed

section \<open>What eviction does to the registry\<close>

lemma minutes_offline_iff:
  "(total_seconds a b / 60 > 10) = (to_micros a - to_micros b > 10 * 60 * 1000000)"
proof -
  have "(total_seconds a b / 60 > 10) = ((of_int (to_micros a - to_micros b) :: rat) > of_int 600000000)"
    by (simp add: total_seconds_def field_simps)
  also have "\<dots> = (to_micros a - to_micros b > 600000000)"
    by (simp only: of_int_less_iff)
  finally show ?thesis by simp
qed

lemma seconds_offline_iff:
  "(total_seconds a b > 600) = (to_micros a - to_micros b > 600000000)"
  using minutes_offline_iff [of a b] by simp

lemma registered_delete:
  "other \<noteq> k \<Longrightarrow>
   registered (s\<lparr>device_statuses := AList.delete k (device_statuses s)\<rparr>) other = registered s other"
  by (simp add: registered_def)

lemma filter_delete:
  "filter (\<lambda>p. fst p \<notin> E) (AList.delete k al) = filter (\<lambda>p. fst p \<notin> insert k E) al"
  by (auto simp: AList.delete_eq intro: filter_cong)

lemma cleanup_loop_walk:
  assumes "distinct (map fst items)" and "list_all (\<lambda>p. wf_status (snd p)) items"
  shows "cleanup_loop now items s =
           ((if missing now items s = [] then Inr () else Inl KeyError),
            s\<lparr>device_statuses :=
                filter (\<lambda>p. fst p \<notin> fst ` set (evictable now items s)) (device_statuses s)\<rparr>)"
  using assms
proof (induction items arbitrary: s)
  case Nil
  then show ?case by (simp add: missing_def evictable_def stale_items_def)
next
  case (Cons p items)
  obtain k st where p: "p = (k, st)" by (cases p)
  have d: "distinct (map fst items)" and w: "list_all (\<lambda>p. wf_status (snd p)) items"
    and k: "k \<notin> fst ` set items"
    using Cons.prems by (auto simp: p)
  obtain last_seen where ls: "ebind (py_getitem st ''last_seen'') fromisoformat = Inr last_seen"
    using Cons.prems(2) by (auto simp: p wf_status_def split: sum.splits)
  define stale where "stale = (total_seconds now last_seen / 60 > 10)"
  have stale_iff: "older_than_10_minutes now st = stale"
    unfolding stale_def older_than_10_minutes_def ls
    by (simp only: minutes_offline_iff sum.case)
  have run: "cleanup_loop now (p # items) s =
        (if stale
         then (if \<not> registered s k then (Inl KeyError, s)
               else cleanup_loop now items
                      (s\<lparr>device_statuses := AList.delete k (device_statuses s)\<rparr>))
         else cleanup_loop now items s)"
    by (simp add: p ls Let_def stale_def registered_def)
  show ?case
  proof (cases stale)
    case False
    then have "stale_items now (p # items) = stale_items now items"
      by (simp add: stale_items_def p stale_iff)
    then show ?thesis
      using False Cons.IH [OF d w, of s] by (simp add: run missing_def evictable_def)
  next
    case True
    then have st: "stale_items now (p # items) = (k, st) # stale_items now items"
      by (simp add: stale_items_def p stale_iff)
    show ?thesis
    proof (cases "registered s k")
      case False
      then show ?thesis using True by (simp add: run st missing_def evictable_def)
    next
      case reg: True
      define s2 where "s2 = s\<lparr>device_statuses := AList.delete k (device_statuses s)\<rparr>"
      have same: "registered s2 (fst q) = registered s (fst q)" if "q \<in> set (stale_items now items)" for q
      proof -
        have "fst q \<noteq> k" using that k by (auto simp: stale_items_def)
        then show ?thesis by (simp add: s2_def registered_delete)
      qed
      have ev: "evictable now items s2 = takeWhile (\<lambda>p. registered s (fst p)) (stale_items now items)"
        unfolding evictable_def using same by (intro takeWhile_cong) auto
      have mi: "missing now items s2 = dropWhile (\<lambda>p. registered s (fst p)) (stale_items now items)"
        unfolding missing_def using same by (intro dropWhile_cong) auto
      have e1: "evictable now (p # items) s = (k, st) # evictable now items s2"
        using reg by (simp add: ev) (simp add: evictable_def st)
      have m1: "missing now (p # items) s = missing now items s2"
        using reg by (simp add: mi) (simp add: missing_def st)
      have f: "filter (\<lambda>q. fst q \<notin> fst ` set (evictable now items s2)) (device_statuses s2) =
               filter (\<lambda>q. fst q \<notin> fst ` set (evictable now (p # items) s)) (device_statuses s)"
        by (simp only: e1) (simp add: s2_def filter_delete)
      have r: "s2\<lparr>device_statuses := X\<rparr> = s\<lparr>device_statuses := X\<rparr>" for X
        by (simp add: s2_def)
      have "cleanup_loop now (p # items) s = cleanup_loop now items s2"
        using True reg by (simp add: run s2_def)
      also have "\<dots> = ((if missing now items s2 = [] then Inr () else Inl KeyError),
            s2\<lparr>device_statuses :=
                filter (\<lambda>p. fst p \<notin> fst ` set (evictable now items s2)) (device_statuses s2)\<rparr>)"
        by (rule Cons.IH [OF d w])
      finally show ?thesis
        by (simp only: m1 f r)
    qed
  qed
qed

lemma get_all_status_own_copy:
  "get_all_status clock s = get_all_status_resumed clock (device_statuses s) s"
  by (simp add: get_all_status_def get_all_status_resumed_def cleanup_offline_devices_def)

lemma stale_all_registered:
  "missing now (device_statuses s) s = [] \<and>
   evictable now (device_statuses s) s = stale_items now (device_statuses s)"
proof -
  have "registered s (fst p)" if "p \<in> set (stale_items now (device_statuses s))" for p
  proof -
    have "p \<in> set (device_statuses s)" using that by (simp add: stale_items_def)
    then have "fst p \<in> fst ` set (device_statuses s)" by (rule imageI)
    then show ?thesis by (simp add: registered_def map_of_eq_None_iff)
  qed
  then show ?thesis by (simp add: missing_def evictable_def)
qed

lemma filter_stale_keys:
  assumes "distinct (map fst items)"
  shows "filter (\<lambda>p. fst p \<notin> fst ` set (stale_items now items)) items =
         filter (\<lambda>p. \<not> older_than_10_minutes now (snd p)) items"
proof (rule filter_cong [OF refl])
  fix p assume p: "p \<in> set items"
  have inj: "inj_on fst (set items)" using assms by (simp add: distinct_map)
  show "(fst p \<notin> fst ` set (stale_items now items)) = (\<not> older_than_10_minutes now (snd p))"
  proof -
    have "fst p \<in> fst ` set (stale_items now items) \<longleftrightarrow> older_than_10_minutes now (snd p)"
    proof
      assume "fst p \<in> fst ` set (stale_items now items)"
      then obtain q where q: "q \<in> set items" "older_than_10_minutes now (snd q)" "fst q = fst p"
        by (auto simp: stale_items_def)
      then have "q = p" using inj p by (auto dest: inj_onD)
      then show "older_than_10_minutes now (snd p)" using q by simp
    next
      assume "older_than_10_minutes now (snd p)"
      then show "fst p \<in> fst ` set (stale_items now items)"
        using p by (auto simp: stale_items_def)
    qed
    then show ?thesis by simp
  qed
qed

lemma cleanup_wf_state:
  assumes "wf_state s"
  shows "cleanup_offline_devices now s =
           (Inr (), s\<lparr>device_statuses :=
                        filter (\<lambda>p. \<not> older_than_10_minutes now (snd p)) (device_statuses s)\<rparr>)"
proof -
  have all: "list_all (\<lambda>p. wf_status (snd p)) (device_statuses s)"
    and dist: "distinct (map fst (device_statuses s))"
    using assms by (simp_all add: wf_state_def)
  show ?thesis
    using cleanup_loop_walk [OF dist all, of now s] stale_all_registered [of now s]
      filter_stale_keys [OF dist, of now]
    by (simp add: cleanup_offline_devices_def)
qed

section \<open>Eviction removes the stale devices and nothing else\<close>

text \<open>
  C3. In every state the service can reach and at every time \<open>now\<close>, eviction succeeds and
  removes exactly the statuses whose \<^verbatim>\<open>last_seen\<close> is more than ten minutes before \<open>now\<close>
  (a status exactly ten minutes old stays). The statuses it keeps are unchanged and in
  their order, and the activity logs and the command queues are unchanged.
\<close>

theorem eviction_removes_exactly_the_stale:
  assumes "reachable s"
  shows "cleanup_offline_devices now s =
           (Inr (), s\<lparr>device_statuses :=
                        filter (\<lambda>p. \<not> older_than_10_minutes now (snd p)) (device_statuses s)\<rparr>) \<and>
         recent_activities (snd (cleanup_offline_devices now s)) = recent_activities s \<and>
         command_queues (snd (cleanup_offline_devices now s)) = command_queues s"
  using cleanup_wf_state [OF reachable_wf [OF assms], of now] by simp

theorem eviction_removes_exactly_the_stale_witness:
  "reachable two_devices \<and>
   map fst (device_statuses two_devices) = [''bot_a'', ''bot_b''] \<and>
   fst (cleanup_offline_devices t_7h12 two_devices) = Inr () \<and>
   map fst (device_statuses (snd (cleanup_offline_devices t_7h12 two_devices))) = [''bot_b'']"
  using reachable_two_devices
    eviction_removes_exactly_the_stale [OF reachable_two_devices, of t_7h12]
  by (simp add: two_devices_eq)


section \<open>A failure during eviction\<close>

text \<open>
  Eviction cannot fail when the request runs alone: every stored \<^verbatim>\<open>last_seen\<close> was
  written by \<^verbatim>\<open>isoformat()\<close> and every key of the copy is in the dictionary. It fails
  when another request evicts a device between this request's copy of the items and its
  loop: \<^verbatim>\<open>del\<close> then raises \<^verbatim>\<open>KeyError\<close>.
\<close>

lemma late_ages [simp]:
  "to_micros t_7h12_late - to_micros t_7h00 = 720000001"
  "to_micros t_7h12_late - to_micros t_7h02 = 600000001"
  by (simp_all add: to_micros_def toordinal_def t_7h12_late_def t_7h12_def t_7h02_def)

lemma staggered_devices_eq:
  "staggered_devices =
     \<lparr>device_statuses =
        [(''bot_a'', status_of_report t_7h02 [] (JStr ''Never'')),
         (''bot_b'', status_of_report t_7h00 [] (JStr ''Never''))],
      command_queues = [], recent_activities = []\<rparr>"
  by (simp add: staggered_devices_def device_heartbeat_def py_or_def heartbeat_last_activity_def
      heartbeat_status_report init_state_def jsonify_def Let_def)

lemma reachable_staggered_devices: "reachable staggered_devices"
  unfolding staggered_devices_def
  by (intro reachable_step [OF _ step.heartbeat] reachable_start valid_clock_const valid_samples)

lemma older_status_of_report [simp]:
  "valid_datetime t \<Longrightarrow>
   older_than_10_minutes now (status_of_report t report la) =
     (to_micros now - to_micros t > 600000000)"
  by (simp add: status_of_report_def)

lemma after_first_request_eq:
  "after_first_request =
     \<lparr>device_statuses = [(''bot_a'', status_of_report t_7h02 [] (JStr ''Never''))],
      command_queues = [], recent_activities = []\<rparr>"
  using cleanup_wf_state [OF reachable_wf [OF reachable_staggered_devices], of t_7h12]
  by (simp add: after_first_request_def get_all_status_def split: sum.splits)
     (simp add: staggered_devices_eq)

lemma step_first_request: "step staggered_devices after_first_request"
  unfolding after_first_request_def
  by (intro step.status valid_clock_const valid_samples)

lemma wf_status_of_report: "valid_datetime t \<Longrightarrow> wf_status (status_of_report t report la)"
  by (simp add: wf_status_def status_of_report_def parse_iso_isoformat)

lemma resumed_run:
  "cleanup_loop t_7h12_late (device_statuses staggered_devices) after_first_request =
     (Inl KeyError, after_first_request\<lparr>device_statuses := []\<rparr>)"
  by (simp add: staggered_devices_eq after_first_request_eq status_of_report_def
      parse_iso_isoformat seconds_offline_iff AList.delete_eq Let_def)

text \<open>
  C5, as stated, fails on the code. The registry holds \<^verbatim>\<open>bot_a\<close>, last seen at 7:02, and
  \<^verbatim>\<open>bot_b\<close>, last seen at 7:00. A status request reads the clock at 7:12:00.000001 and
  copies the items. Before its loop runs, another status request that read the clock at
  7:12:00 runs to its end and evicts \<^verbatim>\<open>bot_b\<close> (\<^verbatim>\<open>bot_a\<close> is exactly ten minutes old). The
  first request then evicts \<^verbatim>\<open>bot_a\<close> and raises \<^verbatim>\<open>KeyError\<close> at \<^verbatim>\<open>bot_b\<close>: it answers 500
  with a body that has an \<^verbatim>\<open>error\<close> key (its value stands for the message of the
  exception) and no \<^verbatim>\<open>success\<close> key, and it has removed \<^verbatim>\<open>bot_a\<close>, which is not the
  device it failed at.
\<close>

theorem eviction_failure_counterexample:
  "reachable staggered_devices \<and>
   step staggered_devices after_first_request \<and>
   map fst (device_statuses staggered_devices) = [''bot_a'', ''bot_b''] \<and>
   map fst (device_statuses after_first_request) = [''bot_a''] \<and>
   get_all_status_resumed (\<lambda>n. t_7h12_late) (device_statuses staggered_devices)
       after_first_request =
     ((JDict [(''error'', JStr ''KeyError'')], 500),
      after_first_request\<lparr>device_statuses := []\<rparr>) \<and>
   py_getitem (JDict [(''error'', JStr ''KeyError'')]) ''success'' = Inl KeyError"
  using reachable_staggered_devices step_first_request
  by (simp add: get_all_status_resumed_def resumed_run error_response_def)
     (simp add: staggered_devices_eq after_first_request_eq)

text \<open>
  C5, amended. The eviction of a request that runs alone in a reachable state does not
  fail. When the eviction of a status request fails, on a copy of the items taken in a
  reachable state and whatever state the requests in between left, the exception is
  \<^verbatim>\<open>KeyError\<close>, raised at the first stale device of the copy that is no longer registered.
  The request answers 500 with the body \<^verbatim>\<open>{'error': str(e)}\<close>, which has no \<^verbatim>\<open>success\<close>
  field. The state it leaves differs only in the registry, which has lost the stale
  devices of the copy that come before the failing one; every status still registered is
  as it was, and so are the activity logs and the command queues.
\<close>

theorem eviction_failure_is_reported:
  assumes copy: "reachable s0"
    and fails: "fst (cleanup_loop (clock 0) (device_statuses s0) s) = Inl e"
  shows "fst (cleanup_offline_devices now s0) = Inr () \<and>
         e = KeyError \<and>
         get_all_status_resumed clock (device_statuses s0) s =
           ((JDict [(''error'', JStr (str_exc e))], 500),
            s\<lparr>device_statuses :=
                filter (\<lambda>p. fst p \<notin> fst ` set (evictable (clock 0) (device_statuses s0) s))
                  (device_statuses s)\<rparr>) \<and>
         py_getitem (JDict [(''error'', JStr (str_exc e))]) ''success'' = Inl KeyError \<and>
         command_queues (snd (get_all_status_resumed clock (device_statuses s0) s)) =
           command_queues s \<and>
         recent_activities (snd (get_all_status_resumed clock (device_statuses s0) s)) =
           recent_activities s \<and>
         (\<exists>device_id status rest.
            missing (clock 0) (device_statuses s0) s = (device_id, status) # rest \<and>
            older_than_10_minutes (clock 0) status \<and> \<not> registered s device_id)"
proof -
  have wf: "wf_state s0" using copy by (rule reachable_wf)
  then have all: "list_all (\<lambda>p. wf_status (snd p)) (device_statuses s0)"
    and dist: "distinct (map fst (device_statuses s0))"
    by (simp_all add: wf_state_def)
  note walk = cleanup_loop_walk [OF dist all, of "clock 0" s]
  have m: "missing (clock 0) (device_statuses s0) s \<noteq> []" and e: "e = KeyError"
    using fails walk by (auto split: if_splits)
  obtain device_id status rest where
    r: "missing (clock 0) (device_statuses s0) s = (device_id, status) # rest"
    using m by (cases "missing (clock 0) (device_statuses s0) s") auto
  have "\<not> registered s device_id"
    using r hd_dropWhile [of "\<lambda>p. registered s (fst p)" "stale_items (clock 0) (device_statuses s0)"]
    by (simp add: missing_def)
  moreover have "(device_id, status) \<in> set (stale_items (clock 0) (device_statuses s0))"
    using r set_dropWhileD [of "(device_id, status)" "\<lambda>p. registered s (fst p)"
        "stale_items (clock 0) (device_statuses s0)"]
    by (simp add: missing_def)
  then have "older_than_10_minutes (clock 0) status"
    by (simp add: stale_items_def)
  ultimately show ?thesis
    using walk m e r cleanup_wf_state [OF wf, of now]
    by (simp add: get_all_status_resumed_def error_response_def)
qed

theorem eviction_failure_is_reported_witness:
  "reachable staggered_devices \<and>
   step staggered_devices after_first_request \<and>
   fst (cleanup_offline_devices t_7h12_late staggered_devices) = Inr () \<and>
   fst (cleanup_loop t_7h12_late (device_statuses staggered_devices) after_first_request) =
     Inl KeyError \<and>
   get_all_status_resumed (\<lambda>n. t_7h12_late) (device_statuses staggered_devices)
       after_first_request =
     ((JDict [(''error'', JStr ''KeyError'')], 500),
      after_first_request\<lparr>device_statuses := []\<rparr>)"
proof -
  have f: "fst (cleanup_loop t_7h12_late (device_statuses staggered_devices) after_first_request) =
     Inl KeyError"
    by (simp add: resumed_run)
  have ev: "evictable t_7h12_late (device_statuses staggered_devices) after_first_request =
      [(''bot_a'', status_of_report t_7h02 [] (JStr ''Never''))]"
    by (simp add: evictable_def stale_items_def registered_def staggered_devices_eq
        after_first_request_eq)
  show ?thesis
    using reachable_staggered_devices step_first_request f
      eviction_failure_is_reported [of staggered_devices "\<lambda>n. t_7h12_late"
        after_first_request KeyError t_7h12_late]
    by (simp add: ev) (simp add: after_first_request_eq)
qed

section \<open>The exceptions eviction can raise\<close>





section \<open>What the analytics compute\<close>

lemma ratio_or_zero_Inr:
  "ratio_or_zero a b = Inr v \<Longrightarrow>
   v = (if b > 0 then PyFloat (of_int a / of_int b) else PyInt 0)"
  by (auto simp: ratio_or_zero_def py_truediv_def ebind_def split: if_splits)

lemma percent_or_zero_Inr:
  "percent_or_zero a b = Inr v \<Longrightarrow>
   v = (if b > 0 then PyFloat (of_int a / of_int b * 100) else PyInt 0)"
  by (auto simp: percent_or_zero_def py_truediv_def ebind_def split: if_splits)



lemma small_quotient:
  assumes "0 < b" and "\<bar>a\<bar> < 2 ^ 1000"
  shows "\<not> 2 ^ 1024 - 2 ^ 970 \<le> \<bar>of_int a / of_int b :: rat\<bar>"
proof -
  have b: "(1 :: rat) \<le> of_int b" using assms(1) by simp
  have "\<bar>of_int a / of_int b :: rat\<bar> = \<bar>of_int a\<bar> / of_int b"
    using assms(1) by simp
  also have "\<dots> \<le> \<bar>of_int a\<bar> / 1"
    by (rule divide_left_mono) (use b in simp_all)
  also have "\<dots> = of_int \<bar>a\<bar>" by simp
  also have "\<dots> < of_int (2 ^ 1000)" using assms(2) by (simp only: of_int_less_iff)
  also have "\<dots> < (2 ^ 1024 - 2 ^ 970 :: rat)" by simp
  finally show ?thesis by simp
qed

lemma ratio_or_zero_small:
  "\<bar>a\<bar> < 2 ^ 1000 \<Longrightarrow>
   ratio_or_zero a b = Inr (if b > 0 then PyFloat (of_int a / of_int b) else PyInt 0)"
  using small_quotient [of b a] by (simp add: ratio_or_zero_def py_truediv_def)

lemma percent_or_zero_small:
  "\<bar>a\<bar> < 2 ^ 1000 \<Longrightarrow>
   percent_or_zero a b = Inr (if b > 0 then PyFloat (of_int a / of_int b * 100) else PyInt 0)"
  using small_quotient [of b a] by (simp add: percent_or_zero_def py_truediv_def)



lemma py_add_value: "py_add n x = Inr m \<Longrightarrow> m = n + count_value x"
  by (cases x) auto


lemma py_sum_from_value: "py_sum_from n xs = Inr m \<Longrightarrow> m = n + sum_list (map count_value xs)"
proof (induction xs arbitrary: n)
  case Nil
  then show ?case by simp
next
  case (Cons x xs)
  then obtain n' where n': "py_add n x = Inr n'" "py_sum_from n' xs = Inr m"
    by (auto simp: ebind_eq_Inr)
  then show ?case using Cons.IH [OF n'(2)] py_add_value [OF n'(1)] by simp
qed






lemma sum_if_dict_value:
  "py_get actions_today k d = Inr v \<Longrightarrow> sum_if_dict actions_today = Inr sm \<Longrightarrow>
   \<exists>actions. actions_today = JDict actions \<and> sm = sum_list (map count_value (map snd actions))"
  by (cases actions_today) (auto simp: py_sum_def dest: py_sum_from_value)

lemma category_count_dict:
  "py_get device_data ''actions_today'' (JDict []) = Inr (JDict actions) \<Longrightarrow>
   py_get (JDict actions) k (JInt 0) = Inr v \<Longrightarrow> count_value v = category_count k device_data"
  by (auto simp: category_count_def report_field_def)

lemma analytics_totals_sums:
  "analytics_totals ds (ta, tt, tr, trt, tu) = Inr (ta', tt', tr', trt', tu') \<Longrightarrow>
   ta' = ta + sum_list (map count_value (concat (map action_values ds))) \<and>
   tt' = tt + sum_list (map (category_count ''tweets'') ds) \<and>
   tr' = tr + sum_list (map (category_count ''replies'') ds) \<and>
   trt' = trt + sum_list (map (category_count ''retweets'') ds)"
proof (induction ds arbitrary: ta tt tr trt tu)
  case Nil
  then show ?case by simp
next
  case (Cons device_data rest)
  from Cons.prems obtain actions_today t r rt tt1 sm tr1 trt1 tu1 where
    at: "py_get device_data ''actions_today'' (JDict []) = Inr actions_today"
    and t: "py_get actions_today ''tweets'' (JInt 0) = Inr t" "py_add tt t = Inr tt1"
    and r: "py_get actions_today ''replies'' (JInt 0) = Inr r" "py_add tr r = Inr tr1"
    and rt: "py_get actions_today ''retweets'' (JInt 0) = Inr rt" "py_add trt rt = Inr trt1"
    and sm: "sum_if_dict actions_today = Inr sm"
    and rest: "analytics_totals rest (ta + sm, tt1, tr1, trt1, tu1) = Inr (ta', tt', tr', trt', tu')"
    by (auto simp: ebind_eq_Inr)
  obtain actions where a: "actions_today = JDict actions"
    "sm = sum_list (map count_value (map snd actions))"
    using sum_if_dict_value [OF t(1) sm] by blast
  have v: "action_values device_data = map snd actions"
    by (simp add: action_values_def at a(1))
  have c: "tt1 = tt + category_count ''tweets'' device_data"
    "tr1 = tr + category_count ''replies'' device_data"
    "trt1 = trt + category_count ''retweets'' device_data"
    using py_add_value [OF t(2)] py_add_value [OF r(2)] py_add_value [OF rt(2)]
      category_count_dict [OF at [unfolded a(1)] t(1) [unfolded a(1)]]
      category_count_dict [OF at [unfolded a(1)] r(1) [unfolded a(1)]]
      category_count_dict [OF at [unfolded a(1)] rt(1) [unfolded a(1)]]
    by simp_all
  show ?case using Cons.IH [OF rest] a(2) v c by simp
qed

lemma compute_analytics_Inr:
  assumes "compute_analytics devices = Inr a"
  shows "\<exists>n ta tt tr trt tu details.
    count_online_get (map snd devices) = Inr n \<and>
    analytics_totals (map snd devices) (0, 0, 0, 0, 0) = Inr (ta, tt, tr, trt, tu) \<and>
    analytics_details devices = Inr details \<and>
    fleet_overview a =
      \<lparr>total_devices = int (length devices), online_devices = int n,
       offline_devices = int (length devices) - int n,
       total_uptime_hours = tu,
       average_uptime_hours =
         (if int (length devices) > 0 then PyFloat (of_int tu / of_int (int (length devices)))
          else PyInt 0)\<rparr> \<and>
    action_breakdown a =
      \<lparr>total_actions = ta, tweets = tt, replies = tr, retweets = trt,
       tweet_percentage = (if ta > 0 then PyFloat (of_int tt / of_int ta * 100) else PyInt 0),
       reply_percentage = (if ta > 0 then PyFloat (of_int tr / of_int ta * 100) else PyInt 0),
       retweet_percentage = (if ta > 0 then PyFloat (of_int trt / of_int ta * 100) else PyInt 0)\<rparr> \<and>
    performance_metrics a =
      \<lparr>avg_actions_per_device =
         (if int (length devices) > 0 then PyFloat (of_int ta / of_int (int (length devices)))
          else PyInt 0),
       uptime_percentage =
         (if int (length devices) > 0
          then PyFloat (of_int (int n) / of_int (int (length devices)) * 100) else PyInt 0),
       action_efficiency = (if tu > 0 then PyFloat (of_int ta / of_int tu) else PyInt 0),
       device_health_score =
         (if int (length devices) > 0
          then PyFloat (of_int (int n) / of_int (int (length devices)) * 100) else PyInt 0)\<rparr>"
proof -
  obtain n where n: "count_online_get (map snd devices) = Inr n"
    using assms by (auto simp: compute_analytics_def Let_def ebind_eq_Inr)
  obtain ta tt tr trt tu where
    t: "analytics_totals (map snd devices) (0, 0, 0, 0, 0) = Inr (ta, tt, tr, trt, tu)"
    using assms by (auto simp: compute_analytics_def Let_def n ebind_eq_Inr)
  obtain details where d: "analytics_details devices = Inr details"
    using assms by (auto simp: compute_analytics_def Let_def n t ebind_eq_Inr)
  from assms obtain v1 v2 v3 v4 v5 v6 v7 v8 where
    r: "ratio_or_zero tu (int (length devices)) = Inr v1"
      "percent_or_zero (int n) (int (length devices)) = Inr v2"
      "ratio_or_zero ta (int (length devices)) = Inr v3"
      "percent_or_zero tt ta = Inr v4"
      "percent_or_zero tr ta = Inr v5"
      "percent_or_zero trt ta = Inr v6"
      "ratio_or_zero ta tu = Inr v7"
      "percent_or_zero (int n) (int (length devices)) = Inr v8"
    and a: "fleet_overview a =
      \<lparr>total_devices = int (length devices), online_devices = int n,
       offline_devices = int (length devices) - int n,
       total_uptime_hours = tu, average_uptime_hours = v1\<rparr>"
      "action_breakdown a =
      \<lparr>total_actions = ta, tweets = tt, replies = tr, retweets = trt,
       tweet_percentage = v4, reply_percentage = v5, retweet_percentage = v6\<rparr>"
      "performance_metrics a =
      \<lparr>avg_actions_per_device = v3, uptime_percentage = v2,
       action_efficiency = v7, device_health_score = v8\<rparr>"
    by (auto simp: compute_analytics_def Let_def n t d ebind_eq_Inr)
  show ?thesis
    using n t d a ratio_or_zero_Inr [OF r(1)] percent_or_zero_Inr [OF r(2)]
      ratio_or_zero_Inr [OF r(3)] percent_or_zero_Inr [OF r(4)] percent_or_zero_Inr [OF r(5)]
      percent_or_zero_Inr [OF r(6)] ratio_or_zero_Inr [OF r(7)] percent_or_zero_Inr [OF r(8)]
    by simp
qed






lemma liking_device_eq:
  "liking_device =
     \<lparr>device_statuses =
        [(''bot_l'', status_of_report t_7h00
            [(''actions_today'', JDict [(''tweets'', JInt 1), (''likes'', JInt 1)])]
            (JStr ''Never''))],
      command_queues = [], recent_activities = []\<rparr>"
  by (simp add: liking_device_def device_heartbeat_def py_or_def heartbeat_last_activity_def
      heartbeat_status_report init_state_def jsonify_def Let_def)

lemma compute_liking_analytics:
  "compute_analytics (device_statuses liking_device) = Inr liking_analytics"
  by (simp add: compute_analytics_def liking_device_eq status_of_report_def report_field_def
      py_sum_def liking_analytics_def liking_detail_def Let_def ratio_or_zero_small
      percent_or_zero_small)

lemma misreporting_device_eq:
  "misreporting_device =
     \<lparr>device_statuses =
        [(''bot_x'', status_of_report t_7h00 [(''actions_today'', JInt 5)] (JStr ''Never''))],
      command_queues = [], recent_activities = []\<rparr>"
  by (simp add: misreporting_device_def device_heartbeat_def py_or_def heartbeat_last_activity_def
      heartbeat_status_report init_state_def jsonify_def Let_def)


lemma reachable_liking_device: "reachable liking_device"
  unfolding liking_device_def
  by (intro reachable_step [OF _ step.heartbeat] reachable_start valid_clock_const valid_samples)

lemma reachable_misreporting_device: "reachable misreporting_device"
  unfolding misreporting_device_def
  by (intro reachable_step [OF _ step.heartbeat] reachable_start valid_clock_const valid_samples)

lemma same_instant [simp]: "to_micros t - to_micros t = 0"
  by simp

lemma get_analytics_wf:
  assumes "wf_state s"
  shows "get_analytics clock s =
    (case compute_analytics
            (filter (\<lambda>p. \<not> older_than_10_minutes (clock 0) (snd p)) (device_statuses s)) of
       Inl e \<Rightarrow> (AnalyticsError (str_exc e), 500)
     | Inr analytics \<Rightarrow> (Analytics (isoformat (clock 1)) analytics, 200),
     s\<lparr>device_statuses :=
         filter (\<lambda>p. \<not> older_than_10_minutes (clock 0) (snd p)) (device_statuses s)\<rparr>)"
  by (simp add: get_analytics_def cleanup_wf_state [OF assms] split: sum.splits)

lemma liking_run:
  "get_analytics (\<lambda>n. t_7h00) liking_device =
     ((Analytics (isoformat t_7h00) liking_analytics, 200), liking_device)"
  using compute_liking_analytics
  by (simp add: get_analytics_wf [OF reachable_wf [OF reachable_liking_device]])
     (simp add: liking_device_eq)

lemma misreporting_run:
  "get_analytics (\<lambda>n. t_7h00) misreporting_device =
     ((AnalyticsError ''AttributeError'', 500), misreporting_device)"
  by (simp add: get_analytics_wf [OF reachable_wf [OF reachable_misreporting_device]])
     (simp add: misreporting_device_eq compute_analytics_def status_of_report_def
        report_field_def)

section \<open>Analytics of a device whose actions are no mapping\<close>

text \<open>
  C4 does not hold of the code. The loop of lines 184 to 190 guards the sum with
  \<^verbatim>\<open>isinstance(actions_today, dict)\<close>, but calls \<^verbatim>\<open>actions_today.get\<close> three times before
  it: a stored \<^verbatim>\<open>actions_today\<close> that is no mapping raises \<^verbatim>\<open>AttributeError\<close> there. A
  device whose heartbeat reported \<^verbatim>\<open>{"actions_today": 5}\<close> is stored as reported, and the
  analytics request then answers 500 with an error instead of counting 0 for the device.
\<close>

theorem analytics_fails_on_non_mapping_actions:
  "reachable misreporting_device \<and>
   device_statuses misreporting_device =
     [(''bot_x'', status_of_report t_7h00 [(''actions_today'', JInt 5)] (JStr ''Never''))] \<and>
   py_getitem (status_of_report t_7h00 [(''actions_today'', JInt 5)] (JStr ''Never''))
     ''actions_today'' = Inr (JInt 5) \<and>
   sum_if_dict (JInt 5) = Inr 0 \<and>
   py_get (JInt 5) ''tweets'' (JInt 0) = Inl AttributeError \<and>
   get_analytics (\<lambda>n. t_7h00) misreporting_device =
     ((AnalyticsError ''AttributeError'', 500), misreporting_device)"
  using reachable_misreporting_device misreporting_run
  by (simp add: misreporting_device_eq) (simp add: status_of_report_def report_field_def)

section \<open>The divisions of the analytics\<close>



section \<open>The total of actions\<close>

text \<open>
  C9. In every result of the analytics, \<^verbatim>\<open>total_actions\<close> is the sum of the values of all
  keys of the \<^verbatim>\<open>actions_today\<close> mappings of all devices, while \<^verbatim>\<open>tweets\<close>, \<^verbatim>\<open>replies\<close> and
  \<^verbatim>\<open>retweets\<close> sum one key each. For the device that reported one tweet and one like,
  \<^verbatim>\<open>total_actions\<close> is 2 and exceeds the sum 1 of the three categories, and the three
  percentages add up to 50, less than 100.
\<close>

theorem total_actions_counts_every_key:
  "(compute_analytics devices = Inr a \<longrightarrow>
      total_actions (action_breakdown a) = sum_list (map count_value (all_action_values devices)) \<and>
      tweets (action_breakdown a) =
        sum_list (map (\<lambda>p. category_count ''tweets'' (snd p)) devices) \<and>
      replies (action_breakdown a) =
        sum_list (map (\<lambda>p. category_count ''replies'' (snd p)) devices) \<and>
      retweets (action_breakdown a) =
        sum_list (map (\<lambda>p. category_count ''retweets'' (snd p)) devices)) \<and>
   (fst (get_analytics clock s) = (Analytics stamp a, code) \<longrightarrow>
      total_actions (action_breakdown a) =
        sum_list (map count_value
          (all_action_values (device_statuses (snd (get_analytics clock s)))))) \<and>
   reachable liking_device \<and>
   fst (get_analytics (\<lambda>n. t_7h00) liking_device) =
     (Analytics (isoformat t_7h00) liking_analytics, 200) \<and>
   total_actions (action_breakdown liking_analytics) >
     tweets (action_breakdown liking_analytics) + replies (action_breakdown liking_analytics) +
     retweets (action_breakdown liking_analytics) \<and>
   number_value (tweet_percentage (action_breakdown liking_analytics)) +
   number_value (reply_percentage (action_breakdown liking_analytics)) +
   number_value (retweet_percentage (action_breakdown liking_analytics)) < 100"
proof -
  have sums: "total_actions (action_breakdown a) =
        sum_list (map count_value (all_action_values devices)) \<and>
      tweets (action_breakdown a) =
        sum_list (map (\<lambda>p. category_count ''tweets'' (snd p)) devices) \<and>
      replies (action_breakdown a) =
        sum_list (map (\<lambda>p. category_count ''replies'' (snd p)) devices) \<and>
      retweets (action_breakdown a) =
        sum_list (map (\<lambda>p. category_count ''retweets'' (snd p)) devices)"
    if ok: "compute_analytics devices = Inr a" for devices a
  proof -
    obtain ta tt tr trt tu where
      t: "analytics_totals (map snd devices) (0, 0, 0, 0, 0) = Inr (ta, tt, tr, trt, tu)"
      and b: "total_actions (action_breakdown a) = ta" "tweets (action_breakdown a) = tt"
        "replies (action_breakdown a) = tr" "retweets (action_breakdown a) = trt"
      using compute_analytics_Inr [OF ok] by auto
    show ?thesis
      using analytics_totals_sums [OF t]
      by (simp add: b all_action_values_def comp_def map_concat)
  qed
  have handler: "total_actions (action_breakdown a) =
        sum_list (map count_value
          (all_action_values (device_statuses (snd (get_analytics clock s)))))"
    if "fst (get_analytics clock s) = (Analytics stamp a, code)"
  proof -
    obtain r s' where c: "cleanup_offline_devices (clock 0) s = (r, s')"
      by (cases "cleanup_offline_devices (clock 0) s")
    have "compute_analytics (device_statuses s') = Inr a \<and> snd (get_analytics clock s) = s'"
      using that c by (auto simp: get_analytics_def split: sum.splits)
    then show ?thesis using sums by simp
  qed
  show ?thesis
    using sums [of devices a] handler reachable_liking_device liking_run
    by (simp add: liking_analytics_def)
qed

theorem total_actions_counts_every_key_witness:
  "compute_analytics (device_statuses liking_device) = Inr liking_analytics \<and>
   all_action_values (device_statuses liking_device) = [JInt 1, JInt 1] \<and>
   total_actions (action_breakdown liking_analytics) = 2 \<and>
   tweets (action_breakdown liking_analytics) = 1 \<and>
   replies (action_breakdown liking_analytics) = 0 \<and>
   retweets (action_breakdown liking_analytics) = 0"
proof -
  have v: "all_action_values (device_statuses liking_device) = [JInt 1, JInt 1]"
    by (simp add: all_action_values_def action_values_def liking_device_eq
        status_of_report_def report_field_def)
  show ?thesis
    using compute_liking_analytics v
      total_actions_counts_every_key [of "device_statuses liking_device" liking_analytics
        "\<lambda>n. t_7h00" liking_device "isoformat t_7h00" 200]
    by (simp add: liking_run)
       (simp add: liking_device_eq category_count_def status_of_report_def report_field_def)
qed

end
